theory Spec2Isabelle
  imports Main
begin

section \<open>Session configuration (runner/session.go)\<close>

text \<open>
  The three structs of \<^verbatim>\<open>runner/session.go\<close>. Go's \<^verbatim>\<open>int\<close> fields hold small literals and
  no arithmetic is done on them, so they are \<open>int\<close>. The pointer field \<^verbatim>\<open>Rules *runnerRules\<close>
  of a test item is an option: \<open>None\<close> is the nil pointer of an item written without rules.
  The session's own field \<^verbatim>\<open>Rules\<close> is named \<open>GlobalRules\<close> here, since two records cannot
  share a field name.
\<close>

record runnerRules =
  FailRetries :: int
  PassRetries :: int
  ErrorRetries :: int
  ExitOnError :: bool

record testItem =
  Fqn :: string
  Skip :: bool
  RetryOnFailure :: bool
  IncludeStatusInBuildResults :: bool
  Rules :: "runnerRules option"

record testRunnerSession =
  Tests :: "testItem list"
  GlobalRules :: runnerRules

text \<open>The method of \<^verbatim>\<open>dummySessionLoader\<close>: a literal, whatever the four arguments are.\<close>

definition LoadSessionConfiguration ::
  "string \<Rightarrow> string \<Rightarrow> string \<Rightarrow> string \<Rightarrow> testRunnerSession" where
  "LoadSessionConfiguration repository branch commit serviceName =
     \<lparr> Tests =
         [ \<lparr> Fqn = ''go.undefinedlabs.com/scopeagent/agent.TestFirstTest'',
             Skip = False, RetryOnFailure = True, IncludeStatusInBuildResults = True,
             Rules = Some \<lparr> FailRetries = 0, PassRetries = 0, ErrorRetries = 0,
                            ExitOnError = False \<rparr> \<rparr>,
           \<lparr> Fqn = ''go.undefinedlabs.com/scopeagent/agent.TestDsnParser'',
             Skip = False, RetryOnFailure = True, IncludeStatusInBuildResults = True,
             Rules = None \<rparr>,
           \<lparr> Fqn = ''go.undefinedlabs.com/scopeagent/agent.TestSkipped'',
             Skip = True, RetryOnFailure = True, IncludeStatusInBuildResults = True,
             Rules = None \<rparr>,
           \<lparr> Fqn = ''go.undefinedlabs.com/scopeagent/agent.TestFlaky'',
             Skip = False, RetryOnFailure = True, IncludeStatusInBuildResults = True,
             Rules = None \<rparr>,
           \<lparr> Fqn = ''go.undefinedlabs.com/scopeagent/agent.TestFail'',
             Skip = False, RetryOnFailure = True, IncludeStatusInBuildResults = True,
             Rules = Some \<lparr> FailRetries = 4, PassRetries = 0, ErrorRetries = 0,
                            ExitOnError = False \<rparr> \<rparr> ],
       GlobalRules = \<lparr> FailRetries = 3, PassRetries = 1, ErrorRetries = 1,
                       ExitOnError = True \<rparr> \<rparr>"

text \<open>
  Modelled from the spec: the lookup of a test in a session is not among the sources. In
  the spec it is by exact string match of the fully qualified name; the first descriptor
  with the name is taken.
\<close>

definition findTest :: "testRunnerSession \<Rightarrow> string \<Rightarrow> testItem option" where
  "findTest cfg fqn = find (\<lambda>i. Fqn i = fqn) (Tests cfg)"

text \<open>
  Modelled from the spec: the function of the runner package that resolves the rules of one
  test is not among the sources. The spec (4.1) gives the resolution order: an identifier
  absent from the descriptor list gets the global rules; a descriptor that is present and
  carries a rule override gets the override in place of the global rules; a descriptor
  without override falls back to the global rules.
\<close>

definition resolveRules :: "testRunnerSession \<Rightarrow> string \<Rightarrow> runnerRules" where
  "resolveRules cfg fqn =
     (case findTest cfg fqn of
        None \<Rightarrow> GlobalRules cfg
      | Some i \<Rightarrow> (case Rules i of None \<Rightarrow> GlobalRules cfg | Some r \<Rightarrow> r))"

text \<open>
  Modelled from the spec: \<^verbatim>\<open>config.GetCachedTestsMap\<close> is not among the sources. The spec
  calls a test a cache hit when the session configuration marks it \<^verbatim>\<open>skip\<close>; the map has
  one key for each descriptor with \<open>Skip\<close> set.
\<close>

definition cachedTestsOf :: "testRunnerSession \<Rightarrow> (string \<rightharpoonup> bool)" where
  "cachedTestsOf cfg = map_of (map (\<lambda>i. (Fqn i, True)) (filter Skip (Tests cfg)))"

section \<open>The lifecycle tracker (instrumentation/testing/testing.go)\<close>

subsection \<open>Values and control\<close>

text \<open>
  Pointers are compared by identity in the source, so a \<^verbatim>\<open>*testing.T\<close>, a \<^verbatim>\<open>*Test\<close> and a span
  are addresses: natural numbers that index a store. A \<^verbatim>\<open>uintptr\<close> program counter is a
  number too. A time is a number, and strings and numbers stand for the values passed to
  \<^verbatim>\<open>panic\<close>, the log records and the coverage data, of which only the identity matters. The
  model is sequential: one operation runs at a time, as one goroutine would run them.
\<close>

type_synonym handle = nat
type_synonym pc = nat
type_synonym ref = nat
type_synonym span_id = nat
type_synonym time = nat
type_synonym any = string
type_synonym covdata = nat
type_synonym covcounters = "nat list"
type_synonym logrecord = string

text \<open>
  A \<^verbatim>\<open>context.Context\<close> that is not nil: the two roots, a context a caller derived from
  another one, and the context \<^verbatim>\<open>opentracing.ContextWithSpan\<close> builds.
\<close>

datatype "context" = Background | TODO | WithValue "context" nat
  | ContextWithSpan "context" span_id

fun SpanFromContext :: "context \<Rightarrow> span_id option" where
  "SpanFromContext Background = None"
| "SpanFromContext TODO = None"
| "SpanFromContext (WithValue c k) = SpanFromContext c"
| "SpanFromContext (ContextWithSpan c s) = Some s"

text \<open>
  How a Go call ends: it returns, it panics with a value, or the goroutine is ended by
  \<^verbatim>\<open>runtime.Goexit\<close> (which \<^verbatim>\<open>t.SkipNow\<close> calls). The state reached is kept in every
  case: a panic undoes nothing.
\<close>

datatype 'a outcome = Return 'a | Panic any | Goexit

text \<open>
  How a function was entered. Go's \<^verbatim>\<open>recover()\<close> gives the panic value only to a function
  that a \<^verbatim>\<open>defer\<close> statement runs while the goroutine panics; called from anywhere
  else, or with no panic under way, it gives nil.
\<close>

datatype frame = Direct | Deferred "any option"

fun recover :: "frame \<Rightarrow> any option" where
  "recover Direct = None"
| "recover (Deferred p) = p"

definition nilDereference :: any where
  "nilDereference = ''runtime error: invalid memory address or nil pointer dereference''"

subsection \<open>The stores\<close>

text \<open>
  The struct \<^verbatim>\<open>Test\<close>. Its embedded \<^verbatim>\<open>testing.TB\<close> is never assigned or read by the functions
  below and is left out. A nil context and a nil span are \<open>None\<close>.
\<close>

record Test =
  test_ctx :: "context option"
  test_span :: "span_id option"
  test_t :: handle
  test_codePC :: pc

text \<open>
  An \<^verbatim>\<open>Option\<close> is a Go function on the struct; here it is a function from the struct to the
  struct it leaves. \<^verbatim>\<open>WithContext\<close> is the only one the package builds.
\<close>

type_synonym Option = "Test \<Rightarrow> Test"

text \<open>
  What the tracker reads and writes of a \<^verbatim>\<open>testing.T\<close> of the host framework, and the two
  fields its method \<^verbatim>\<open>Fail\<close> reads besides: \<^verbatim>\<open>done\<close>, set once the test has completed,
  and \<^verbatim>\<open>parent\<close>, the test whose \<^verbatim>\<open>Run\<close> created this one (nil for a top-level test).
  Handles are numbered in the order the host framework creates the tests, so the handle of
  a parent is smaller than the handle of its child.
\<close>

record T =
  T_name :: string
  T_failed :: bool
  T_skipped :: bool
  T_finished :: bool
  T_isParallel :: bool
  T_start :: "string + time"
  T_done :: bool
  T_parent :: "handle option"

datatype TestStatus = TestStatus_PASS | TestStatus_FAIL | TestStatus_SKIP | TestStatus_CACHE

text \<open>
  The text of the constant \<^verbatim>\<open>tags.Coverage\<close> is not in the sources, so that key is kept
  apart from the keys written as string literals.
\<close>

datatype tagkey = Key string | Coverage

datatype tagval = StrVal string | BoolVal bool | StatusVal TestStatus | CovVal covdata

record FinishOptions =
  FinishTime :: "time option"
  LogRecords :: "logrecord list"

text \<open>
  A span of the tracer. \<open>sp_tags\<close> lists every tag in the order it was set, the tags given
  at the start first, so that a tag set twice is seen twice; \<open>sp_finishes\<close> has one entry
  for each call of \<^verbatim>\<open>Finish\<close> or \<^verbatim>\<open>FinishWithOptions\<close>. \<open>sp_own\<close> says whether the span is the
  agent's own \<^verbatim>\<open>tracer.Span\<close>, which the type assertions of \<^verbatim>\<open>end\<close> test.
\<close>

record Span =
  sp_name :: string
  sp_tags :: "(tagkey \<times> tagval) list"
  sp_baggage :: "(string \<times> string) list"
  sp_parent :: "span_id option"
  sp_start :: "time option"
  sp_events :: "(any \<times> int) list"
  sp_finishes :: "FinishOptions list"
  sp_own :: bool

datatype mutex = testMapMutex | autoInstrumentedTestsMutex

datatype lockev = Lock mutex | Unlock mutex | RLock mutex | RUnlock mutex

text \<open>
  The process state: the allocated \<^verbatim>\<open>Test\<close> structs and spans (with the next free address
  of each), the two package maps, the host tests, the log collector's buffer, what the
  agent's logger and the standard output received, the coverage counters, and the
  mutex operations in the order they were performed.
\<close>

record world =
  heap :: "ref \<Rightarrow> Test"
  nextRef :: ref
  testMap :: "handle \<rightharpoonup> ref"
  autoInstrumentedTests :: "handle \<rightharpoonup> bool"
  spans :: "span_id \<Rightarrow> Span"
  nextSpan :: span_id
  hosts :: "handle \<Rightarrow> T"
  pendingLogs :: "logrecord list"
  logger :: "string list"
  stdout :: "string list"
  counters :: covcounters
  lockLog :: "lockev list"

text \<open>
  What the file uses of the other packages and of the process, as parameters: the source
  lookups of \<^verbatim>\<open>instrumentation\<close>, \<^verbatim>\<open>runner.GetOriginalTestName\<close>, the cached tests of
  \<^verbatim>\<open>config\<close>, whether \<^verbatim>\<open>instrumentation.Tracer()\<close> makes the agent's own spans,
  \<^verbatim>\<open>testing.CoverMode()\<close>, the package variable \<^verbatim>\<open>parallel\<close>, the clock, and the three
  functions of \<^verbatim>\<open>coverage\<close> acting on the counters.
\<close>

record env =
  GetPackageAndName :: "pc \<Rightarrow> string \<times> string"
  GetPackageAndNameAndBoundaries :: "pc \<Rightarrow> string \<times> string \<times> string"
  GetOriginalTestName :: "string \<Rightarrow> string"
  GetCachedTestsMap :: "string \<rightharpoonup> bool"
  ownTracer :: bool
  CoverMode :: string
  parallel :: int
  Now :: time
  StartCoverage :: "covcounters \<Rightarrow> covcounters"
  EndCoverage :: "covcounters \<Rightarrow> covcounters \<times> covdata option"
  RestoreCoverageCounters :: "covcounters \<Rightarrow> covcounters"

definition obind ::
  "world \<times> 'a outcome \<Rightarrow> ('a \<Rightarrow> world \<Rightarrow> world \<times> 'b outcome) \<Rightarrow> world \<times> 'b outcome" where
  "obind m f = (case m of (w, Return x) \<Rightarrow> f x w
                        | (w, Panic v) \<Rightarrow> (w, Panic v)
                        | (w, Goexit) \<Rightarrow> (w, Goexit))"

subsection \<open>The collaborators\<close>

definition mutexOp :: "lockev \<Rightarrow> world \<Rightarrow> world" where
  "mutexOp ev w = w\<lparr>lockLog := lockLog w @ [ev]\<rparr>"

definition Printf :: "string \<Rightarrow> world \<Rightarrow> world" where
  "Printf msg w = w\<lparr>logger := logger w @ [msg]\<rparr>"

definition Print :: "string \<Rightarrow> world \<Rightarrow> world" where
  "Print msg w = w\<lparr>stdout := stdout w @ [msg]\<rparr>"

definition updSpan :: "span_id \<Rightarrow> (Span \<Rightarrow> Span) \<Rightarrow> world \<Rightarrow> world" where
  "updSpan s f w = w\<lparr>spans := (spans w)(s := f (spans w s))\<rparr>"

definition updTest :: "ref \<Rightarrow> (Test \<Rightarrow> Test) \<Rightarrow> world \<Rightarrow> world" where
  "updTest r f w = w\<lparr>heap := (heap w)(r := f (heap w r))\<rparr>"

definition updHost :: "handle \<Rightarrow> (T \<Rightarrow> T) \<Rightarrow> world \<Rightarrow> world" where
  "updHost t f w = w\<lparr>hosts := (hosts w)(t := f (hosts w t))\<rparr>"

definition SetTag :: "span_id \<Rightarrow> tagkey \<Rightarrow> tagval \<Rightarrow> world \<Rightarrow> world" where
  "SetTag s k v = updSpan s (\<lambda>sp. sp\<lparr>sp_tags := sp_tags sp @ [(k, v)]\<rparr>)"

definition SetBaggageItem :: "span_id \<Rightarrow> string \<Rightarrow> string \<Rightarrow> world \<Rightarrow> world" where
  "SetBaggageItem s k v = updSpan s (\<lambda>sp. sp\<lparr>sp_baggage := sp_baggage sp @ [(k, v)]\<rparr>)"

definition FinishWithOptions :: "span_id \<Rightarrow> FinishOptions \<Rightarrow> world \<Rightarrow> world" where
  "FinishWithOptions s fo = updSpan s (\<lambda>sp. sp\<lparr>sp_finishes := sp_finishes sp @ [fo]\<rparr>)"

definition Finish :: "span_id \<Rightarrow> world \<Rightarrow> world" where
  "Finish s = FinishWithOptions s \<lparr>FinishTime = None, LogRecords = []\<rparr>"

text \<open>
  \<^verbatim>\<open>opentracing.StartSpanFromContextWithTracer\<close>: the new span is a child of the span the
  context carries, and the context returned carries the new span. The library reads the
  context first, so a nil context is a nil dereference.
\<close>

definition StartSpanFromContextWithTracer ::
  "env \<Rightarrow> context option \<Rightarrow> string \<Rightarrow> (tagkey \<times> tagval) list \<Rightarrow> world
     \<Rightarrow> world \<times> (span_id \<times> context) outcome" where
  "StartSpanFromContextWithTracer E c operationName tgs w =
     (case c of
        None \<Rightarrow> (w, Panic nilDereference)
      | Some cx \<Rightarrow>
          (w\<lparr>spans := (spans w)(nextSpan w :=
                \<lparr>sp_name = operationName, sp_tags = tgs, sp_baggage = [],
                 sp_parent = SpanFromContext cx, sp_start = None, sp_events = [],
                 sp_finishes = [], sp_own = ownTracer E\<rparr>),
             nextSpan := Suc (nextSpan w)\<rparr>,
           Return (nextSpan w, ContextWithSpan cx (nextSpan w))))"

text \<open>
  Modelled from the spec: \<^verbatim>\<open>tracer.Span.SetStart\<close> is not among the sources. The spec asks of
  the agent's own span an override of its start by the exact start time.
\<close>

definition SetStart :: "span_id \<Rightarrow> time \<Rightarrow> world \<Rightarrow> world" where
  "SetStart s startTime = updSpan s (\<lambda>sp. sp\<lparr>sp_start := Some startTime\<rparr>)"

text \<open>
  Modelled from the spec: \<^verbatim>\<open>tracer.Span.UnsafeSetTag\<close> is not among the sources. The spec
  knows one way of setting a tag, so it sets the tag as \<^verbatim>\<open>SetTag\<close> does.
\<close>

definition UnsafeSetTag :: "span_id \<Rightarrow> tagkey \<Rightarrow> tagval \<Rightarrow> world \<Rightarrow> world" where
  "UnsafeSetTag s k v = SetTag s k v"

text \<open>
  Modelled from the spec: \<^verbatim>\<open>errors.WriteExceptionEvent\<close> is not among the sources. The spec
  says it records its second argument as a structured exception event on the span; the
  number of frames to skip is kept with it. The span is an interface value, and a method
  call on a nil one is a nil dereference.
\<close>

definition WriteExceptionEvent ::
  "span_id option \<Rightarrow> any \<Rightarrow> int \<Rightarrow> world \<Rightarrow> world \<times> unit outcome" where
  "WriteExceptionEvent sp e callersSkip w =
     (case sp of
        None \<Rightarrow> (w, Panic nilDereference)
      | Some s \<Rightarrow>
          (updSpan s (\<lambda>x. x\<lparr>sp_events := sp_events x @ [(e, callersSkip)]\<rparr>) w, Return ()))"

text \<open>
  Modelled from the spec: \<^verbatim>\<open>logging.Reset\<close> is not among the sources. The spec's log
  collector resets the buffer of pending records.
\<close>

definition Reset :: "world \<Rightarrow> world" where
  "Reset w = w\<lparr>pendingLogs := []\<rparr>"

text \<open>
  Modelled from the spec: \<^verbatim>\<open>logging.GetRecords\<close> is not among the sources. The spec's log
  collector gives the records since the last reset, in order.
\<close>

definition GetRecords :: "world \<Rightarrow> logrecord list" where
  "GetRecords w = pendingLogs w"

text \<open>
  Modelled from the spec: \<^verbatim>\<open>reflection.SkipAndFinishTest\<close> is not among the sources. By its
  name and the spec's skipped state of a cached test, it leaves the host test skipped and
  finished.
\<close>

definition SkipAndFinishTest :: "handle \<Rightarrow> world \<Rightarrow> world" where
  "SkipAndFinishTest t = updHost t (\<lambda>h. h\<lparr>T_skipped := True, T_finished := True\<rparr>)"

text \<open>
  Modelled from the spec: \<^verbatim>\<open>reflection.GetIsParallel\<close> is not among the sources. It reads
  the parallel flag of the host test.
\<close>

definition GetIsParallel :: "handle \<Rightarrow> world \<Rightarrow> bool" where
  "GetIsParallel t w = T_isParallel (hosts w t)"

text \<open>
  Modelled from the spec: \<^verbatim>\<open>reflection.GetTestStartTime\<close> is not among the sources. It reads
  the start time of the host test, or gives an error.
\<close>

definition GetTestStartTime :: "handle \<Rightarrow> world \<Rightarrow> string + time" where
  "GetTestStartTime t w = T_start (hosts w t)"

text \<open>
  The methods of \<^verbatim>\<open>testing.T\<close> the file calls. \<^verbatim>\<open>SkipNow\<close> marks the test skipped and
  finished and ends the goroutine with \<^verbatim>\<open>runtime.Goexit\<close>: it does not return.
  \<^verbatim>\<open>Fail\<close> first calls \<^verbatim>\<open>Fail\<close> on the parent, if there is one; then it panics if the test
  has completed, and marks the test failed otherwise. A parent link that does not lead to
  a smaller handle is not one the host framework makes, and is not followed.
\<close>

definition Name :: "handle \<Rightarrow> world \<Rightarrow> string" where
  "Name t w = T_name (hosts w t)"

definition Failed :: "handle \<Rightarrow> world \<Rightarrow> bool" where
  "Failed t w = T_failed (hosts w t)"

definition Skipped :: "handle \<Rightarrow> world \<Rightarrow> bool" where
  "Skipped t w = T_skipped (hosts w t)"

function Fail :: "handle \<Rightarrow> world \<Rightarrow> world \<times> unit outcome" where
  "Fail t w =
     obind (case T_parent (hosts w t) of
              Some p \<Rightarrow> if p < t then Fail p w else (w, Return ())
            | None \<Rightarrow> (w, Return ()))
       (\<lambda>_ w1.
          if T_done (hosts w1 t)
          then (w1, Panic (''Fail in goroutine after '' @ T_name (hosts w1 t) @ '' has completed''))
          else (updHost t (\<lambda>h. h\<lparr>T_failed := True\<rparr>) w1, Return ()))"
  by pat_completeness auto

termination Fail
  by (relation "measure fst") auto

declare Fail.simps [simp del]

definition SkipNow :: "handle \<Rightarrow> world \<Rightarrow> world \<times> unit outcome" where
  "SkipNow t w = (updHost t (\<lambda>h. h\<lparr>T_skipped := True, T_finished := True\<rparr>) w, Goexit)"

subsection \<open>The operations\<close>

text \<open>
  Each definition below is one function of \<^verbatim>\<open>testing.go\<close>, under its name there; the line
  numbers are those of the source file. \<^verbatim>\<open>WithContext\<close> (lines 50 to 54), and the loop that
  applies the options to the struct at an address (lines 69 to 71 and 104 to 106).
\<close>

definition WithContext :: "context option \<Rightarrow> Option" where
  "WithContext c = (\<lambda>test. test\<lparr>test_ctx := c\<rparr>)"

definition applyOptions :: "ref \<Rightarrow> Option list \<Rightarrow> world \<Rightarrow> world" where
  "applyOptions r opts = updTest r (\<lambda>test. foldl (\<lambda>x opt. opt x) test opts)"

text \<open>
  \<^verbatim>\<open>isTestCached\<close> (lines 327 to 339); \<open>quote\<close> puts the two single quotes of its messages.
\<close>

definition quote :: "string \<Rightarrow> string" where
  "quote x = [CHR 0x27] @ x @ [CHR 0x27]"

definition isTestCached :: "env \<Rightarrow> handle \<Rightarrow> pc \<Rightarrow> world \<Rightarrow> world \<times> bool" where
  "isTestCached E t p w =
     (let (pkgName, testName) = GetPackageAndName E p;
          fqn = pkgName @ ''.'' @ testName
      in case GetCachedTestsMap E fqn of
           Some _ \<Rightarrow>
             (SkipAndFinishTest t
                (Print ''[SCOPE CACHED] '' (Printf (''Test '' @ quote fqn @ '' is cached.'') w)),
              True)
         | None \<Rightarrow> (Printf (''Test '' @ quote fqn @ '' is not cached.'') w, False))"

text \<open>
  \<^verbatim>\<open>getOrCreateTest\<close> (lines 262 to 274), \<^verbatim>\<open>removeTest\<close> (277 to 281), \<^verbatim>\<open>GetTest\<close> (284 to
  295) and \<^verbatim>\<open>addAutoInstrumentedTest\<close> (320 to 324), each with the lock it takes and its
  deferred unlock. A struct literal is allocated at the next free address.
\<close>

definition getOrCreateTest :: "handle \<Rightarrow> world \<Rightarrow> world \<times> ref \<times> bool" where
  "getOrCreateTest t w =
     (let w1 = mutexOp (Lock testMapMutex) w
      in case testMap w1 t of
           Some testPtr \<Rightarrow> (mutexOp (Unlock testMapMutex) w1, testPtr, True)
         | None \<Rightarrow>
             (mutexOp (Unlock testMapMutex)
                (w1\<lparr>heap := (heap w1)(nextRef w1 :=
                        \<lparr>test_ctx = None, test_span = None, test_t = t, test_codePC = 0\<rparr>),
                    nextRef := Suc (nextRef w1),
                    testMap := (testMap w1)(t \<mapsto> nextRef w1)\<rparr>),
              nextRef w1, False))"

definition removeTest :: "handle \<Rightarrow> world \<Rightarrow> world" where
  "removeTest t w =
     mutexOp (Unlock testMapMutex)
       ((mutexOp (Lock testMapMutex) w)\<lparr>testMap := (testMap w)(t := None)\<rparr>)"

definition GetTest :: "handle \<Rightarrow> world \<Rightarrow> world \<times> ref" where
  "GetTest t w =
     (let w1 = mutexOp (RLock testMapMutex) w
      in case testMap w1 t of
           Some test \<Rightarrow> (mutexOp (RUnlock testMapMutex) w1, test)
         | None \<Rightarrow>
             (mutexOp (RUnlock testMapMutex)
                (w1\<lparr>heap := (heap w1)(nextRef w1 :=
                        \<lparr>test_ctx = Some TODO, test_span = None, test_t = t, test_codePC = 0\<rparr>),
                    nextRef := Suc (nextRef w1)\<rparr>),
              nextRef w1))"

definition addAutoInstrumentedTest :: "handle \<Rightarrow> world \<Rightarrow> world" where
  "addAutoInstrumentedTest t w =
     mutexOp (Unlock autoInstrumentedTestsMutex)
       ((mutexOp (Lock autoInstrumentedTestsMutex) w)
          \<lparr>autoInstrumentedTests := (autoInstrumentedTests w)(t \<mapsto> True)\<rparr>)"

text \<open>The tags both branches of \<^verbatim>\<open>StartTestFromCaller\<close> start their span with.\<close>

definition testTags :: "string \<Rightarrow> string \<Rightarrow> (tagkey \<times> tagval) list" where
  "testTags fullTestName pName =
     [(Key ''span.kind'', StrVal ''test''),
      (Key ''test.name'', StrVal fullTestName),
      (Key ''test.suite'', StrVal pName),
      (Key ''test.framework'', StrVal ''testing''),
      (Key ''test.language'', StrVal ''go'')]"

text \<open>
  The first branch of \<^verbatim>\<open>StartTestFromCaller\<close> (lines 66 to 90), taken when the test is
  cached. The \<^verbatim>\<open>return\<close> of line 90 comes after \<^verbatim>\<open>t.SkipNow()\<close>.
\<close>

definition startCached :: "env \<Rightarrow> handle \<Rightarrow> pc \<Rightarrow> Option list \<Rightarrow> world \<Rightarrow> world \<times> ref outcome" where
  "startCached E t p opts w =
     (let test = nextRef w;
          w1 = w\<lparr>heap := (heap w)(test :=
                     \<lparr>test_ctx = Some Background, test_span = None, test_t = t, test_codePC = 0\<rparr>),
                 nextRef := Suc test\<rparr>;
          w2 = applyOptions test opts w1;
          fullTestName = GetOriginalTestName E (Name t w2);
          (pName, _) = GetPackageAndName E p
      in obind (StartSpanFromContextWithTracer E (test_ctx (heap w2 test)) fullTestName
                  (testTags fullTestName pName) w2)
           (\<lambda>(span, _) w3.
              obind (SkipNow t
                       (Finish span
                          (SetTag span (Key ''test.status'') (StatusVal TestStatus_CACHE)
                             (SetBaggageItem span ''trace.kind'' ''test'' w3))))
                (\<lambda>_ w4. (w4, Return test))))"

text \<open>The second branch of \<^verbatim>\<open>StartTestFromCaller\<close> (lines 92 to 138).\<close>

definition startTracked :: "env \<Rightarrow> handle \<Rightarrow> pc \<Rightarrow> Option list \<Rightarrow> world \<Rightarrow> world \<times> ref outcome" where
  "startTracked E t p opts w =
     (let (w1, test, exist) = getOrCreateTest t w;
          w2 = (if exist then updTest test (\<lambda>x. x\<lparr>test_ctx := Some Background\<rparr>) w1 else w1);
          w3 = updTest test (\<lambda>x. x\<lparr>test_codePC := p\<rparr>) w2;
          w4 = applyOptions test opts w3;
          fullTestName = GetOriginalTestName E (Name t w4);
          (pName, _, testCode) = GetPackageAndNameAndBoundaries E p;
          tgs = testTags fullTestName pName
                  @ (if testCode \<noteq> [] then [(Key ''test.code'', StrVal testCode)] else []);
          w5 = (if test_ctx (heap w4 test) = None
                then updTest test (\<lambda>x. x\<lparr>test_ctx := Some Background\<rparr>) w4 else w4)
      in obind (StartSpanFromContextWithTracer E (test_ctx (heap w5 test)) fullTestName tgs w5)
           (\<lambda>(span, c) w6.
              let w7 = SetBaggageItem span ''trace.kind'' ''test'' w6;
                  w8 = updTest test (\<lambda>x. x\<lparr>test_span := Some span, test_ctx := Some c\<rparr>) w7;
                  w9 = Reset w8;
                  w10 = w9\<lparr>counters := StartCoverage E (counters w9)\<rparr>
              in (w10, Return test)))"

definition StartTestFromCaller ::
  "env \<Rightarrow> handle \<Rightarrow> pc \<Rightarrow> Option list \<Rightarrow> world \<Rightarrow> world \<times> ref outcome" where
  "StartTestFromCaller E t p opts w =
     (let (w1, cached) = isTestCached E t p w
      in if cached then startCached E t p opts w1 else startTracked E t p opts w1)"

text \<open>\<^verbatim>\<open>StartTest\<close> passes on the program counter of its caller, here the argument \<open>caller\<close>.\<close>

definition StartTest :: "env \<Rightarrow> pc \<Rightarrow> handle \<Rightarrow> Option list \<Rightarrow> world \<Rightarrow> world \<times> ref outcome" where
  "StartTest E caller t opts w = StartTestFromCaller E t caller opts w"

text \<open>\<^verbatim>\<open>SetTestCode\<close> (lines 142 to 152) and \<^verbatim>\<open>Context\<close> (165 to 167).\<close>

definition SetTestCode :: "env \<Rightarrow> ref \<Rightarrow> pc \<Rightarrow> world \<Rightarrow> world" where
  "SetTestCode E test p w =
     (let w1 = updTest test (\<lambda>x. x\<lparr>test_codePC := p\<rparr>) w
      in case test_span (heap w1 test) of
           None \<Rightarrow> w1
         | Some s \<Rightarrow>
             (let (pName, _, fBoundaries) = GetPackageAndNameAndBoundaries E p;
                  w2 = SetTag s (Key ''test.suite'') (StrVal pName) w1
              in if fBoundaries \<noteq> [] then SetTag s (Key ''test.code'') (StrVal fBoundaries) w2
                 else w2))"

definition Context :: "ref \<Rightarrow> world \<Rightarrow> context option" where
  "Context test w = test_ctx (heap w test)"

text \<open>
  Three parts of \<^verbatim>\<open>end\<close>: the start time (lines 193 to 199), the coverage (211 to 223)
  and the status of a test that did not panic (231 to 238).
\<close>

definition endStartTime :: "handle \<Rightarrow> span_id \<Rightarrow> world \<Rightarrow> world" where
  "endStartTime t s w =
     (if sp_own (spans w s) then
        (case GetTestStartTime t w of
           Inr startTime \<Rightarrow> SetStart s startTime w
         | Inl err \<Rightarrow> Printf (''error: '' @ err) w)
      else w)"

definition endCoverage :: "env \<Rightarrow> handle \<Rightarrow> span_id \<Rightarrow> world \<Rightarrow> world" where
  "endCoverage E t s w =
     (if CoverMode E \<noteq> [] then
        (if GetIsParallel t w \<and> parallel E > 1 then
           (let w1 = Printf (''CodePath in parallel test is not supported: '' @ Name t w
                               @ [CHR 0x0A]) w
            in w1\<lparr>counters := RestoreCoverageCounters E (counters w1)\<rparr>)
         else
           (let (c, cov) = EndCoverage E (counters w);
                w1 = w\<lparr>counters := c\<rparr>
            in case cov of
                 Some cv \<Rightarrow>
                   (if sp_own (spans w1 s) then UnsafeSetTag s Coverage (CovVal cv) w1
                    else SetTag s Coverage (CovVal cv) w1)
               | None \<Rightarrow> w1))
      else w)"

definition endStatus :: "handle \<Rightarrow> span_id \<Rightarrow> world \<Rightarrow> world" where
  "endStatus t s w =
     (if Failed t w then
        SetTag s (Key ''error'') (BoolVal True)
          (SetTag s (Key ''test.status'') (StatusVal TestStatus_FAIL) w)
      else if Skipped t w then SetTag s (Key ''test.status'') (StatusVal TestStatus_SKIP) w
      else SetTag s (Key ''test.status'') (StatusVal TestStatus_PASS) w)"

text \<open>
  The method \<^verbatim>\<open>end\<close> (lines 184 to 241); \<open>end\<close> is a keyword here, hence the name. The receiver may be the nil
  pointer, \<open>None\<close>. The frame says how the method was entered, which decides what its
  \<^verbatim>\<open>recover()\<close> gives.
\<close>

definition end' :: "env \<Rightarrow> ref option \<Rightarrow> frame \<Rightarrow> world \<Rightarrow> world \<times> unit outcome" where
  "end' E test fr w =
     (case test of
        None \<Rightarrow> (w, Return ())
      | Some r \<Rightarrow>
          (case test_span (heap w r) of
             None \<Rightarrow> (w, Return ())
           | Some s \<Rightarrow>
               (let t = test_t (heap w r);
                    finishTime = Now E;
                    w1 = endStartTime t s w;
                    w2 = removeTest t w1;
                    logRecords = GetRecords w2;
                    finishOptions = \<lparr>FinishTime = Some finishTime, LogRecords = logRecords\<rparr>;
                    w3 = endCoverage E t s w2
                in case recover fr of
                     Some v \<Rightarrow>
                       obind (WriteExceptionEvent (Some s) v 1
                                (SetTag s (Key ''test.status'') (StatusVal TestStatus_FAIL) w3))
                         (\<lambda>_ w4. (FinishWithOptions s finishOptions w4, Panic v))
                   | None \<Rightarrow>
                       (FinishWithOptions s finishOptions (endStatus t s w3), Return ()))))"

text \<open>
  \<^verbatim>\<open>End\<close> (lines 155 to 162) holds the read lock of the auto-instrumented map until it leaves, also when \<^verbatim>\<open>end\<close>
  panics. It calls \<^verbatim>\<open>end\<close> as an ordinary call, so the \<^verbatim>\<open>recover()\<close> of \<^verbatim>\<open>end\<close> gives nil
  there, also when \<^verbatim>\<open>End\<close> itself is the deferred call of a panicking test.
\<close>

definition End :: "env \<Rightarrow> ref \<Rightarrow> world \<Rightarrow> world \<times> unit outcome" where
  "End E test w =
     (let w1 = mutexOp (RLock autoInstrumentedTestsMutex) w;
          (w2, res) = (case autoInstrumentedTests w1 (test_t (heap w1 test)) of
                         None \<Rightarrow> end' E (Some test) Direct w1
                       | Some _ \<Rightarrow> (w1, Return ()))
      in (mutexOp (RUnlock autoInstrumentedTestsMutex) w2, res))"

text \<open>
  The function \<^verbatim>\<open>Run\<close> hands to \<^verbatim>\<open>t.Run\<close> for an instrumented test (lines 175 to 180). The deferred \<^verbatim>\<open>end\<close> is
  registered once \<^verbatim>\<open>StartTestFromCaller\<close> has returned; it runs when the body returns,
  panics or ends the goroutine, and what the body did goes on unless \<^verbatim>\<open>end\<close> itself panics.
\<close>

type_synonym body = "handle \<Rightarrow> world \<Rightarrow> world \<times> unit outcome"

definition runChild :: "env \<Rightarrow> pc \<Rightarrow> body \<Rightarrow> body" where
  "runChild E p f childT w =
     obind (StartTestFromCaller E childT p [] (addAutoInstrumentedTest childT w))
       (\<lambda>childTest w1.
          let (w2, res) = f childT w1;
              (w3, res') = end' E (Some childTest)
                             (Deferred (case res of Panic v \<Rightarrow> Some v | _ \<Rightarrow> None)) w2
          in (w3, case res' of Return _ \<Rightarrow> res | _ \<Rightarrow> res'))"

text \<open>
  \<^verbatim>\<open>Run\<close> (lines 170 to 181). The host framework's \<^verbatim>\<open>t.Run\<close> is the parameter \<open>tRun\<close>, and \<open>caller\<close> is the
  program counter of the caller of \<^verbatim>\<open>Run\<close>.
\<close>

definition Run ::
  "env \<Rightarrow> (handle \<Rightarrow> string \<Rightarrow> body \<Rightarrow> world \<Rightarrow> world \<times> bool outcome) \<Rightarrow> pc \<Rightarrow> ref \<Rightarrow> string
     \<Rightarrow> body \<Rightarrow> world \<Rightarrow> world \<times> bool outcome" where
  "Run E tRun caller test name f w =
     (case test_span (heap w test) of
        None \<Rightarrow> tRun (test_t (heap w test)) name f w
      | Some _ \<Rightarrow> tRun (test_t (heap w test)) name (runChild E caller f) w)"

text \<open>
  The loop of \<^verbatim>\<open>PanicAllRunningTests\<close> over the values of the copied map (lines 311 to
  316), and the function (lines 299 to 317).
  Go leaves the order in which a map is ranged over open, so the order is the parameter
  \<open>keys\<close>: the keys of the map in the order the loop meets them.
\<close>

fun panicLoop :: "env \<Rightarrow> any \<Rightarrow> int \<Rightarrow> ref list \<Rightarrow> world \<Rightarrow> world \<times> unit outcome" where
  "panicLoop E e skip [] w = (w, Return ())"
| "panicLoop E e skip (v # vs) w =
     (let t = test_t (heap w v);
          w1 = w\<lparr>autoInstrumentedTests := (autoInstrumentedTests w)(t := None)\<rparr>
      in obind (Fail t w1)
           (\<lambda>_ w2. obind (WriteExceptionEvent (test_span (heap w2 v)) e (1 + skip) w2)
              (\<lambda>_ w3. obind (end' E (Some v) Direct w3) (\<lambda>_ w4. panicLoop E e skip vs w4))))"

definition PanicAllRunningTests ::
  "env \<Rightarrow> handle list \<Rightarrow> any \<Rightarrow> int \<Rightarrow> world \<Rightarrow> world \<times> unit outcome" where
  "PanicAllRunningTests E keys e skip w =
     (let w1 = mutexOp (Lock autoInstrumentedTestsMutex) w;
          w2 = mutexOp (RLock testMapMutex) w1;
          tmp = testMap w2;
          w3 = mutexOp (RUnlock testMapMutex) w2;
          (w4, res) = panicLoop E e skip (List.map_filter tmp keys) w3
      in (mutexOp (Unlock autoInstrumentedTestsMutex) w4, res))"

section \<open>Notions used in the statements\<close>

text \<open>
  The tags of a span whose key is the coverage key, and those whose key is
  \<^verbatim>\<open>test.status\<close>, each in the order they were set.
\<close>

definition covTags :: "Span \<Rightarrow> (tagkey \<times> tagval) list" where
  "covTags sp = filter (\<lambda>kv. fst kv = Coverage) (sp_tags sp)"

definition statusTags :: "Span \<Rightarrow> (tagkey \<times> tagval) list" where
  "statusTags sp = filter (\<lambda>kv. fst kv = Key ''test.status'') (sp_tags sp)"

text \<open>The value a tag has: the one set last.\<close>

definition tagValue :: "Span \<Rightarrow> tagkey \<Rightarrow> tagval option" where
  "tagValue sp k = map_of (rev (sp_tags sp)) k"

text \<open>The test of line 213, and the tags \<^verbatim>\<open>end\<close> adds to its span in lines 211 to 238.\<close>

definition coverageUnsafe :: "env \<Rightarrow> handle \<Rightarrow> world \<Rightarrow> bool" where
  "coverageUnsafe E t w = (T_isParallel (hosts w t) \<and> parallel E > 1)"

definition endCovTags :: "env \<Rightarrow> handle \<Rightarrow> world \<Rightarrow> (tagkey \<times> tagval) list" where
  "endCovTags E t w =
     (if CoverMode E \<noteq> [] \<and> \<not> coverageUnsafe E t w then
        (case snd (EndCoverage E (counters w)) of
           Some cv \<Rightarrow> [(Coverage, CovVal cv)] | None \<Rightarrow> [])
      else [])"

definition endStatusTags :: "frame \<Rightarrow> handle \<Rightarrow> world \<Rightarrow> (tagkey \<times> tagval) list" where
  "endStatusTags fr t w =
     (case recover fr of
        Some v \<Rightarrow> [(Key ''test.status'', StatusVal TestStatus_FAIL)]
      | None \<Rightarrow>
          (if T_failed (hosts w t) then
             [(Key ''test.status'', StatusVal TestStatus_FAIL), (Key ''error'', BoolVal True)]
           else if T_skipped (hosts w t) then [(Key ''test.status'', StatusVal TestStatus_SKIP)]
           else [(Key ''test.status'', StatusVal TestStatus_PASS)]))"

text \<open>The state \<^verbatim>\<open>end\<close> has reached when it calls \<^verbatim>\<open>recover()\<close>.\<close>

definition endBefore :: "env \<Rightarrow> handle \<Rightarrow> span_id \<Rightarrow> world \<Rightarrow> world" where
  "endBefore E t s w = endCoverage E t s (removeTest t (endStartTime t s w))"

text \<open>The name \<^verbatim>\<open>isTestCached\<close> looks up for a program counter.\<close>

definition fqnOf :: "env \<Rightarrow> pc \<Rightarrow> string" where
  "fqnOf E p = fst (GetPackageAndName E p) @ ''.'' @ snd (GetPackageAndName E p)"

text \<open>
  The struct of a tracked unit once \<^verbatim>\<open>StartTestFromCaller\<close> has stored the code location and
  applied the options; the context a span is started from when that struct's context may
  be nil; the tags the span of a tracked unit starts with; and the struct the cached branch
  builds.
\<close>

definition startedTest :: "pc \<Rightarrow> Option list \<Rightarrow> Test \<Rightarrow> Test" where
  "startedTest p opts x = foldl (\<lambda>y opt. opt y) (x\<lparr>test_codePC := p\<rparr>) opts"

definition ctxOr :: "context option \<Rightarrow> context" where
  "ctxOr c = (case c of None \<Rightarrow> Background | Some cx \<Rightarrow> cx)"

definition trackedTags :: "env \<Rightarrow> handle \<Rightarrow> pc \<Rightarrow> world \<Rightarrow> (tagkey \<times> tagval) list" where
  "trackedTags E t p w =
     testTags (GetOriginalTestName E (T_name (hosts w t)))
        (fst (GetPackageAndNameAndBoundaries E p))
     @ (if snd (snd (GetPackageAndNameAndBoundaries E p)) \<noteq> []
        then [(Key ''test.code'', StrVal (snd (snd (GetPackageAndNameAndBoundaries E p))))]
        else [])"

definition cachedTest :: "handle \<Rightarrow> Option list \<Rightarrow> Test" where
  "cachedTest t opts =
     foldl (\<lambda>y opt. opt y)
       \<lparr>test_ctx = Some Background, test_span = None, test_t = t, test_codePC = 0\<rparr> opts"

text \<open>
  The generic end-of-test hook of a caller that instruments every test: it looks the unit of
  the handle up and ends it.
\<close>

definition endHook :: "env \<Rightarrow> body" where
  "endHook E t w = (case GetTest t w of (w1, test) \<Rightarrow> End E test w1)"

text \<open>
  A test function that instruments itself: it defers \<^verbatim>\<open>End\<close> on its unit and runs its
  body. The deferred \<^verbatim>\<open>End\<close> runs when the body returns, panics or ends the goroutine, and
  what the body did goes on unless \<^verbatim>\<open>End\<close> itself panics.
\<close>

definition deferEnd :: "env \<Rightarrow> ref \<Rightarrow> body \<Rightarrow> body" where
  "deferEnd E test f t w =
     (let (w1, res) = f t w;
          (w2, res') = End E test w1
      in (w2, case res' of Return _ \<Rightarrow> res | _ \<Rightarrow> res'))"

text \<open>
  The mutex operations a state \<open>w'\<close> has performed since an earlier state \<open>w\<close>, and a check
  of a sequence of mutex operations, given the mutexes held when it starts: it never
  acquires \<open>b\<close> while \<open>a\<close> is held, and it holds nothing when it ends.
\<close>

definition newLocks :: "world \<Rightarrow> world \<Rightarrow> lockev list" where
  "newLocks w w' = drop (length (lockLog w)) (lockLog w')"

fun neverAcquires :: "mutex \<Rightarrow> mutex \<Rightarrow> mutex list \<Rightarrow> lockev list \<Rightarrow> bool" where
  "neverAcquires b a held [] = (held = [])"
| "neverAcquires b a held (Lock m # evs) =
     (\<not> (m = b \<and> a \<in> set held) \<and> neverAcquires b a (m # held) evs)"
| "neverAcquires b a held (RLock m # evs) =
     (\<not> (m = b \<and> a \<in> set held) \<and> neverAcquires b a (m # held) evs)"
| "neverAcquires b a held (Unlock m # evs) = neverAcquires b a (remove1 m held) evs"
| "neverAcquires b a held (RUnlock m # evs) = neverAcquires b a (remove1 m held) evs"

text \<open>
  A host test has completed, or one of the tests \<^verbatim>\<open>Fail\<close> goes up to from it has: these are
  the host tests on which \<^verbatim>\<open>Fail\<close> panics.
\<close>

function completed :: "(handle \<Rightarrow> T) \<Rightarrow> handle \<Rightarrow> bool" where
  "completed hs t =
     ((case T_parent (hs t) of
         Some p \<Rightarrow> if p < t then completed hs p else False
       | None \<Rightarrow> False)
      \<or> T_done (hs t))"
  by pat_completeness auto

termination completed
  by (relation "measure snd") auto

declare completed.simps [simp del]

text \<open>
  The numbering of the handles: every parent link leads to a smaller handle. Under it
  \<^verbatim>\<open>Fail\<close> follows every parent link.
\<close>

definition creationOrdered :: "(handle \<Rightarrow> T) \<Rightarrow> bool" where
  "creationOrdered hs = (\<forall>t p. T_parent (hs t) = Some p \<longrightarrow> p < t)"

text \<open>
  The host tests \<open>hs'\<close> are the host tests \<open>hs\<close> except that some of them have been marked
  failed.
\<close>

definition failedMore :: "(handle \<Rightarrow> T) \<Rightarrow> (handle \<Rightarrow> T) \<Rightarrow> bool" where
  "failedMore hs hs' = (\<forall>k. hs' k = hs k \<or> hs' k = (hs k)\<lparr>T_failed := True\<rparr>)"

text \<open>
  One turn of the loop of \<^verbatim>\<open>PanicAllRunningTests\<close> for a unit with a span on whose host
  test \<^verbatim>\<open>Fail\<close> returns, and the state in which that turn calls \<^verbatim>\<open>end\<close>.
\<close>

definition sweepPre :: "any \<Rightarrow> int \<Rightarrow> ref \<Rightarrow> span_id \<Rightarrow> world \<Rightarrow> world" where
  "sweepPre e n v s w =
     updSpan s (\<lambda>x. x\<lparr>sp_events := sp_events x @ [(e, n)]\<rparr>)
       (fst (Fail (test_t (heap w v))
          (w\<lparr>autoInstrumentedTests := (autoInstrumentedTests w)(test_t (heap w v) := None)\<rparr>)))"

definition sweepOne :: "env \<Rightarrow> any \<Rightarrow> int \<Rightarrow> ref \<Rightarrow> world \<Rightarrow> world" where
  "sweepOne E e skip v w =
     (let t = test_t (heap w v);
          w2 = fst (Fail t (w\<lparr>autoInstrumentedTests := (autoInstrumentedTests w)(t := None)\<rparr>))
      in fst (end' E (Some v) Direct
                (fst (WriteExceptionEvent (test_span (heap w2 v)) e (1 + skip) w2))))"

text \<open>
  What the sweep leaves on a span: the exception event of the cause, at least one finish,
  and \<^verbatim>\<open>test.status\<close> with the value FAIL.
\<close>

definition sweptSpan :: "any \<Rightarrow> int \<Rightarrow> Span \<Rightarrow> bool" where
  "sweptSpan e n sp =
     ((e, n) \<in> set (sp_events sp) \<and> sp_finishes sp \<noteq> []
      \<and> tagValue sp (Key ''test.status'') = Some (StatusVal TestStatus_FAIL))"

text \<open>The handles of a list of units.\<close>

definition sweptKeys :: "world \<Rightarrow> ref list \<Rightarrow> handle set" where
  "sweptKeys w vs = (\<lambda>v. test_t (heap w v)) ` set vs"

text \<open>
  The invariant of the live set between two operations: every unit in it is an allocated
  struct, stored under its own handle, with an allocated span.
\<close>

definition tracked :: "world \<Rightarrow> bool" where
  "tracked w =
     (\<forall>k r. testMap w k = Some r \<longrightarrow>
        r < nextRef w \<and> test_t (heap w r) = k
        \<and> (\<exists>s. test_span (heap w r) = Some s \<and> s < nextSpan w))"

section \<open>Example states\<close>

text \<open>
  An environment in which program counter 7 is \<^verbatim>\<open>TestSkipped\<close> of the agent package, which
  the dummy loader's session marks skipped, and every other one is \<^verbatim>\<open>TestFirstTest\<close>;
  and the state of a process that has started no test, whose host test 1 is parallel and
  whose host test 5 is a sub-test of host test 0. No host test has completed.
\<close>

definition E0 :: env where
  "E0 = \<lparr> GetPackageAndName = (\<lambda>p. (''go.undefinedlabs.com/scopeagent/agent'',
             if p = 7 then ''TestSkipped'' else ''TestFirstTest'')),
          GetPackageAndNameAndBoundaries = (\<lambda>p. (''go.undefinedlabs.com/scopeagent/agent'',
             if p = 7 then ''TestSkipped'' else ''TestFirstTest'', [])),
          GetOriginalTestName = (\<lambda>n. n),
          GetCachedTestsMap = cachedTestsOf (LoadSessionConfiguration [] [] [] []),
          ownTracer = True,
          CoverMode = ''set'',
          parallel = 2,
          Now = 100,
          StartCoverage = map (\<lambda>c. 0),
          EndCoverage = (\<lambda>cs. (cs, Some (sum_list cs))),
          RestoreCoverageCounters = (\<lambda>cs. cs) \<rparr>"

definition W0 :: world where
  "W0 = \<lparr> heap = (\<lambda>r. \<lparr>test_ctx = None, test_span = None, test_t = 0, test_codePC = 0\<rparr>),
          nextRef = 0,
          testMap = Map.empty,
          autoInstrumentedTests = Map.empty,
          spans = (\<lambda>s. \<lparr>sp_name = [], sp_tags = [], sp_baggage = [], sp_parent = None,
                         sp_start = None, sp_events = [], sp_finishes = [], sp_own = False\<rparr>),
          nextSpan = 0,
          hosts = (\<lambda>t. \<lparr>T_name = ''Test'', T_failed = False, T_skipped = False,
                         T_finished = False, T_isParallel = (t = 1), T_start = Inr 7,
                         T_done = False, T_parent = (if t = 5 then Some 0 else None)\<rparr>),
          pendingLogs = [],
          logger = [],
          stdout = [],
          counters = [3, 4],
          lockLog = [] \<rparr>"

text \<open>The states after test 0, and then test 1, were started at program counter 0.\<close>

definition W1 :: world where
  "W1 = fst (StartTestFromCaller E0 0 0 [] W0)"

definition W2 :: world where
  "W2 = fst (StartTestFromCaller E0 1 0 [] W1)"

text \<open>
  The state after test 0 was started and its test function has returned without a call of
  \<^verbatim>\<open>End\<close>: the host test has completed and its unit is still in the live set.
\<close>

definition Wleak :: world where
  "Wleak = updHost 0 (\<lambda>h. h\<lparr>T_done := True\<rparr>) W1"

text \<open>
  The state in which the wrapper of \<^verbatim>\<open>Run\<close> calls the body of sub-test 5, when \<^verbatim>\<open>Run\<close> was
  called in the state in which test 0 is started.
\<close>

definition Wsub :: world where
  "Wsub = fst (StartTestFromCaller E0 5 0 [] (addAutoInstrumentedTest 5 W1))"

section \<open>Rule resolution and the dummy loader\<close>

lemma find_unique:
  "distinct (map f xs) \<Longrightarrow> x \<in> set xs \<Longrightarrow> find (\<lambda>y. f y = f x) xs = Some x"
  by (induction xs) (auto simp: image_iff)

text \<open>
  C3. A per-test override replaces the global rules whole: when the descriptor of a test
  carries an override, resolving the test gives the override itself, whatever the global
  rules are. In the session of the claim (global rules 3/1/1/true, \<open>pkg.TestFail\<close>
  overridden with \<open>failRetries\<close> 4 and Go's zero values elsewhere) the result is exactly
  4/0/0/false, as the witness computes.
\<close>

theorem C3_override_replaces_global:
  assumes "distinct (map Fqn (Tests cfg))"
    and "i \<in> set (Tests cfg)"
    and "Rules i = Some r"
  shows "resolveRules cfg (Fqn i) = r"
proof -
  have "find (\<lambda>y. Fqn y = Fqn i) (Tests cfg) = Some i"
    using assms(1,2) by (rule find_unique)
  then have "findTest cfg (Fqn i) = Some i"
    by (simp add: findTest_def)
  then show ?thesis
    by (simp add: resolveRules_def assms(3))
qed

text \<open>The session and the test of the claim.\<close>

theorem C3_override_replaces_global_witness:
  "resolveRules
     \<lparr> Tests = [ \<lparr> Fqn = ''pkg.TestFail'', Skip = False, RetryOnFailure = True,
                   IncludeStatusInBuildResults = True,
                   Rules = Some \<lparr> FailRetries = 4, PassRetries = 0, ErrorRetries = 0,
                                  ExitOnError = False \<rparr> \<rparr> ],
       GlobalRules = \<lparr> FailRetries = 3, PassRetries = 1, ErrorRetries = 1,
                       ExitOnError = True \<rparr> \<rparr>
     ''pkg.TestFail''
   = \<lparr> FailRetries = 4, PassRetries = 0, ErrorRetries = 0, ExitOnError = False \<rparr>"
  using C3_override_replaces_global
    [of "\<lparr> Tests = [ \<lparr> Fqn = ''pkg.TestFail'', Skip = False, RetryOnFailure = True,
                   IncludeStatusInBuildResults = True,
                   Rules = Some \<lparr> FailRetries = 4, PassRetries = 0, ErrorRetries = 0,
                                  ExitOnError = False \<rparr> \<rparr> ],
       GlobalRules = \<lparr> FailRetries = 3, PassRetries = 1, ErrorRetries = 1,
                       ExitOnError = True \<rparr> \<rparr>"
        "\<lparr> Fqn = ''pkg.TestFail'', Skip = False, RetryOnFailure = True,
                   IncludeStatusInBuildResults = True,
                   Rules = Some \<lparr> FailRetries = 4, PassRetries = 0, ErrorRetries = 0,
                                  ExitOnError = False \<rparr> \<rparr>"
        "\<lparr> FailRetries = 4, PassRetries = 0, ErrorRetries = 0, ExitOnError = False \<rparr>"]
  by simp

text \<open>
  C10. The dummy loader is a constant function: any two calls give the same session
  configuration, which has five test descriptors and the global rules 3/1/1/true.
\<close>

theorem C10_dummy_loader_constant:
  "LoadSessionConfiguration repository branch commit serviceName =
     LoadSessionConfiguration repository' branch' commit' serviceName'
   \<and> length (Tests (LoadSessionConfiguration repository branch commit serviceName)) = 5
   \<and> GlobalRules (LoadSessionConfiguration repository branch commit serviceName) =
       \<lparr> FailRetries = 3, PassRetries = 1, ErrorRetries = 1, ExitOnError = True \<rparr>"
  by (simp add: LoadSessionConfiguration_def)

section \<open>The effects of the operations\<close>

text \<open>
  The method \<^verbatim>\<open>end\<close> first: what it does to each part of the state, from the three
  parts it is made of.
\<close>

lemma end_nil_span: "test_span (heap w r) = None \<Longrightarrow> end' E (Some r) fr w = (w, Return ())"
  by (simp add: end'_def)

lemma end_unfold:
  "test_span (heap w r) = Some s \<Longrightarrow>
   end' E (Some r) fr w =
     (case recover fr of
        Some v \<Rightarrow>
          (FinishWithOptions s \<lparr>FinishTime = Some (Now E), LogRecords = pendingLogs w\<rparr>
             (updSpan s (\<lambda>x. x\<lparr>sp_events := sp_events x @ [(v, 1)]\<rparr>)
                (SetTag s (Key ''test.status'') (StatusVal TestStatus_FAIL)
                   (endBefore E (test_t (heap w r)) s w))),
           Panic v)
      | None \<Rightarrow>
          (FinishWithOptions s \<lparr>FinishTime = Some (Now E), LogRecords = pendingLogs w\<rparr>
             (endStatus (test_t (heap w r)) s (endBefore E (test_t (heap w r)) s w)),
           Return ()))"
  by (simp add: end'_def Let_def obind_def WriteExceptionEvent_def endBefore_def GetRecords_def
        removeTest_def mutexOp_def endStartTime_def SetStart_def Printf_def updSpan_def
        GetTestStartTime_def
      split: option.splits sum.splits)

lemma endStartTime_frame:
  "heap (endStartTime t s w) = heap w"
  "nextRef (endStartTime t s w) = nextRef w"
  "nextSpan (endStartTime t s w) = nextSpan w"
  "testMap (endStartTime t s w) = testMap w"
  "autoInstrumentedTests (endStartTime t s w) = autoInstrumentedTests w"
  "hosts (endStartTime t s w) = hosts w"
  "stdout (endStartTime t s w) = stdout w"
  "pendingLogs (endStartTime t s w) = pendingLogs w"
  "counters (endStartTime t s w) = counters w"
  "lockLog (endStartTime t s w) = lockLog w"
  "s' \<noteq> s \<Longrightarrow> spans (endStartTime t s w) s' = spans w s'"
  "sp_tags (spans (endStartTime t s w) s') = sp_tags (spans w s')"
  "sp_own (spans (endStartTime t s w) s') = sp_own (spans w s')"
  "sp_events (spans (endStartTime t s w) s') = sp_events (spans w s')"
  "sp_finishes (spans (endStartTime t s w) s') = sp_finishes (spans w s')"
  by (simp_all add: endStartTime_def SetStart_def Printf_def updSpan_def GetTestStartTime_def
        split: sum.splits)

lemma removeTest_frame:
  "heap (removeTest t w) = heap w"
  "nextRef (removeTest t w) = nextRef w"
  "nextSpan (removeTest t w) = nextSpan w"
  "testMap (removeTest t w) = (testMap w)(t := None)"
  "autoInstrumentedTests (removeTest t w) = autoInstrumentedTests w"
  "hosts (removeTest t w) = hosts w"
  "stdout (removeTest t w) = stdout w"
  "pendingLogs (removeTest t w) = pendingLogs w"
  "counters (removeTest t w) = counters w"
  "logger (removeTest t w) = logger w"
  "lockLog (removeTest t w) = lockLog w @ [Lock testMapMutex, Unlock testMapMutex]"
  "spans (removeTest t w) = spans w"
  by (simp_all add: removeTest_def mutexOp_def)

lemma endCoverage_frame:
  "heap (endCoverage E t s w) = heap w"
  "nextRef (endCoverage E t s w) = nextRef w"
  "nextSpan (endCoverage E t s w) = nextSpan w"
  "testMap (endCoverage E t s w) = testMap w"
  "autoInstrumentedTests (endCoverage E t s w) = autoInstrumentedTests w"
  "hosts (endCoverage E t s w) = hosts w"
  "stdout (endCoverage E t s w) = stdout w"
  "pendingLogs (endCoverage E t s w) = pendingLogs w"
  "lockLog (endCoverage E t s w) = lockLog w"
  "s' \<noteq> s \<Longrightarrow> spans (endCoverage E t s w) s' = spans w s'"
  "sp_own (spans (endCoverage E t s w) s') = sp_own (spans w s')"
  "sp_events (spans (endCoverage E t s w) s') = sp_events (spans w s')"
  "sp_finishes (spans (endCoverage E t s w) s') = sp_finishes (spans w s')"
  by (simp_all add: endCoverage_def Let_def case_prod_beta Printf_def UnsafeSetTag_def SetTag_def
        updSpan_def split: option.splits)

lemma endCoverage_counters:
  "counters (endCoverage E t s w) =
     (if CoverMode E = [] then counters w
      else if coverageUnsafe E t w then RestoreCoverageCounters E (counters w)
      else fst (EndCoverage E (counters w)))"
  by (simp add: endCoverage_def coverageUnsafe_def GetIsParallel_def Let_def case_prod_beta
        Printf_def UnsafeSetTag_def SetTag_def updSpan_def split: option.splits)

lemma endCoverage_tags:
  "sp_tags (spans (endCoverage E t s w) s) = sp_tags (spans w s) @ endCovTags E t w"
  by (simp add: endCoverage_def endCovTags_def coverageUnsafe_def GetIsParallel_def Let_def
        case_prod_beta Printf_def UnsafeSetTag_def SetTag_def updSpan_def split: option.splits)

lemma endCoverage_logger:
  "logger (endCoverage E t s w) =
     logger w @ (if CoverMode E \<noteq> [] \<and> coverageUnsafe E t w
                 then [''CodePath in parallel test is not supported: '' @ T_name (hosts w t)
                         @ [CHR 0x0A]]
                 else [])"
  by (simp add: endCoverage_def coverageUnsafe_def GetIsParallel_def Name_def Let_def
        case_prod_beta Printf_def UnsafeSetTag_def SetTag_def updSpan_def split: option.splits)

lemma endStatus_frame:
  "heap (endStatus t s w) = heap w"
  "nextRef (endStatus t s w) = nextRef w"
  "nextSpan (endStatus t s w) = nextSpan w"
  "testMap (endStatus t s w) = testMap w"
  "autoInstrumentedTests (endStatus t s w) = autoInstrumentedTests w"
  "hosts (endStatus t s w) = hosts w"
  "stdout (endStatus t s w) = stdout w"
  "pendingLogs (endStatus t s w) = pendingLogs w"
  "counters (endStatus t s w) = counters w"
  "logger (endStatus t s w) = logger w"
  "lockLog (endStatus t s w) = lockLog w"
  "s' \<noteq> s \<Longrightarrow> spans (endStatus t s w) s' = spans w s'"
  "sp_events (spans (endStatus t s w) s') = sp_events (spans w s')"
  "sp_finishes (spans (endStatus t s w) s') = sp_finishes (spans w s')"
  by (simp_all add: endStatus_def SetTag_def updSpan_def)

lemma endStatus_tags:
  "sp_tags (spans (endStatus t s w) s) = sp_tags (spans w s) @ endStatusTags Direct t w"
  by (simp add: endStatus_def endStatusTags_def Failed_def Skipped_def SetTag_def updSpan_def)

lemmas endBefore_simps = endBefore_def endStartTime_frame removeTest_frame endCoverage_frame

lemmas span_prims = FinishWithOptions_def SetTag_def updSpan_def

lemma mutexOp_frame:
  "heap (mutexOp ev w) = heap w" "nextRef (mutexOp ev w) = nextRef w"
  "testMap (mutexOp ev w) = testMap w"
  "autoInstrumentedTests (mutexOp ev w) = autoInstrumentedTests w"
  "spans (mutexOp ev w) = spans w" "nextSpan (mutexOp ev w) = nextSpan w"
  "hosts (mutexOp ev w) = hosts w" "pendingLogs (mutexOp ev w) = pendingLogs w"
  "stdout (mutexOp ev w) = stdout w" "counters (mutexOp ev w) = counters w"
  "logger (mutexOp ev w) = logger w" "lockLog (mutexOp ev w) = lockLog w @ [ev]"
  by (simp_all add: mutexOp_def)

lemma end_outcome:
  "test_span (heap w r) = Some s \<Longrightarrow>
   snd (end' E (Some r) fr w) = (case recover fr of Some v \<Rightarrow> Panic v | None \<Rightarrow> Return ())"
  by (simp add: end_unfold split: option.splits)

lemma end_frame:
  assumes "test_span (heap w r) = Some s"
  shows "heap (fst (end' E (Some r) fr w)) = heap w"
    and "nextRef (fst (end' E (Some r) fr w)) = nextRef w"
    and "nextSpan (fst (end' E (Some r) fr w)) = nextSpan w"
    and "autoInstrumentedTests (fst (end' E (Some r) fr w)) = autoInstrumentedTests w"
    and "hosts (fst (end' E (Some r) fr w)) = hosts w"
    and "stdout (fst (end' E (Some r) fr w)) = stdout w"
    and "pendingLogs (fst (end' E (Some r) fr w)) = pendingLogs w"
  using assms
  by (simp_all add: end_unfold span_prims endBefore_simps endStatus_frame split: option.splits)

lemma end_testMap:
  "test_span (heap w r) = Some s \<Longrightarrow>
   testMap (fst (end' E (Some r) fr w)) = (testMap w)(test_t (heap w r) := None)"
  by (simp add: end_unfold span_prims endBefore_simps endStatus_frame split: option.splits)

lemma end_lockLog:
  "test_span (heap w r) = Some s \<Longrightarrow>
   lockLog (fst (end' E (Some r) fr w)) = lockLog w @ [Lock testMapMutex, Unlock testMapMutex]"
  by (simp add: end_unfold span_prims endBefore_simps endStatus_frame split: option.splits)

lemma end_counters:
  "test_span (heap w r) = Some s \<Longrightarrow>
   counters (fst (end' E (Some r) fr w)) =
     (if CoverMode E = [] then counters w
      else if coverageUnsafe E (test_t (heap w r)) w then RestoreCoverageCounters E (counters w)
      else fst (EndCoverage E (counters w)))"
  by (simp add: end_unfold span_prims endBefore_simps endStatus_frame endCoverage_counters
        coverageUnsafe_def split: option.splits)

lemma end_other_spans:
  "test_span (heap w r) = Some s \<Longrightarrow> s' \<noteq> s \<Longrightarrow>
   spans (fst (end' E (Some r) fr w)) s' = spans w s'"
  by (simp add: end_unfold span_prims endBefore_simps endStatus_frame split: option.splits)

lemma endCovTags_cong:
  "hosts w' = hosts w \<Longrightarrow> counters w' = counters w \<Longrightarrow> endCovTags E t w' = endCovTags E t w"
  by (simp add: endCovTags_def coverageUnsafe_def)

lemma endStatusTags_cong:
  "hosts w' = hosts w \<Longrightarrow> endStatusTags fr t w' = endStatusTags fr t w"
  by (simp add: endStatusTags_def)

lemma endStatusTags_Direct:
  "recover fr = None \<Longrightarrow> endStatusTags fr t w = endStatusTags Direct t w"
  by (simp add: endStatusTags_def)

lemma end_tags:
  "test_span (heap w r) = Some s \<Longrightarrow>
   sp_tags (spans (fst (end' E (Some r) fr w)) s) =
     sp_tags (spans w s) @ endCovTags E (test_t (heap w r)) w
       @ endStatusTags fr (test_t (heap w r)) w"
proof -
  assume a: "test_span (heap w r) = Some s"
  let ?t = "test_t (heap w r)"
  let ?w1 = "removeTest ?t (endStartTime ?t s w)"
  have b: "sp_tags (spans (endBefore E ?t s w) s) = sp_tags (spans w s) @ endCovTags E ?t w"
    by (simp add: endBefore_def endCoverage_tags removeTest_frame endStartTime_frame
          endCovTags_cong [of ?w1 w])
  have h: "hosts (endBefore E ?t s w) = hosts w"
    by (simp add: endBefore_simps)
  show ?thesis
  proof (cases "recover fr")
    case None
    then show ?thesis
      using a b by (simp add: end_unfold FinishWithOptions_def updSpan_def endStatus_tags
            endStatusTags_Direct [OF None] endStatusTags_cong [OF h])
  next
    case (Some v)
    then show ?thesis
      using a b by (simp add: end_unfold span_prims endStatusTags_def)
  qed
qed

lemma end_events:
  "test_span (heap w r) = Some s \<Longrightarrow>
   sp_events (spans (fst (end' E (Some r) fr w)) s) =
     sp_events (spans w s) @ (case recover fr of Some v \<Rightarrow> [(v, 1)] | None \<Rightarrow> [])"
  by (simp add: end_unfold span_prims endBefore_simps endStatus_frame split: option.splits)

lemma end_finishes:
  "test_span (heap w r) = Some s \<Longrightarrow>
   sp_finishes (spans (fst (end' E (Some r) fr w)) s) =
     sp_finishes (spans w s) @ [\<lparr>FinishTime = Some (Now E), LogRecords = pendingLogs w\<rparr>]"
  by (simp add: end_unfold span_prims endBefore_simps endStatus_frame split: option.splits)

lemma end_logger:
  "test_span (heap w r) = Some s \<Longrightarrow>
   logger (fst (end' E (Some r) fr w)) =
     logger (endStartTime (test_t (heap w r)) s w)
       @ (if CoverMode E \<noteq> [] \<and> coverageUnsafe E (test_t (heap w r)) w
          then [''CodePath in parallel test is not supported: ''
                  @ T_name (hosts w (test_t (heap w r))) @ [CHR 0x0A]]
          else [])"
  by (simp add: end_unfold span_prims endBefore_def endStatus_frame endCoverage_logger
        removeTest_frame endStartTime_frame coverageUnsafe_def split: option.splits)

text \<open>
  \<^verbatim>\<open>StartTestFromCaller\<close>: the state it reaches on each of its three paths, written out.
\<close>

lemma isTestCached_miss:
  "GetCachedTestsMap E (fqnOf E p) = None \<Longrightarrow>
   isTestCached E t p w = (Printf (''Test '' @ quote (fqnOf E p) @ '' is not cached.'') w, False)"
  by (simp add: isTestCached_def fqnOf_def case_prod_beta Let_def)

lemma isTestCached_hit:
  "GetCachedTestsMap E (fqnOf E p) = Some b \<Longrightarrow>
   isTestCached E t p w =
     (SkipAndFinishTest t
        (Print ''[SCOPE CACHED] '' (Printf (''Test '' @ quote (fqnOf E p) @ '' is cached.'') w)),
      True)"
  by (simp add: isTestCached_def fqnOf_def case_prod_beta Let_def)

lemma startTracked_existing:
  assumes "testMap w t = Some r"
  shows "startTracked E t p opts w =
    (let x = startedTest p opts ((heap w r)\<lparr>test_ctx := Some Background\<rparr>);
         s = nextSpan w
     in (w\<lparr>heap := (heap w)(r := x\<lparr>test_span := Some s,
                                   test_ctx := Some (ContextWithSpan (ctxOr (test_ctx x)) s)\<rparr>),
           spans := (spans w)(s :=
              \<lparr>sp_name = GetOriginalTestName E (T_name (hosts w t)),
               sp_tags = trackedTags E t p w,
               sp_baggage = [(''trace.kind'', ''test'')],
               sp_parent = SpanFromContext (ctxOr (test_ctx x)), sp_start = None, sp_events = [],
               sp_finishes = [], sp_own = ownTracer E\<rparr>),
           nextSpan := Suc s,
           pendingLogs := [],
           counters := StartCoverage E (counters w),
           lockLog := lockLog w @ [Lock testMapMutex, Unlock testMapMutex]\<rparr>,
         Return r))"
  using assms
  apply (simp add: startTracked_def getOrCreateTest_def Let_def case_prod_beta obind_def
        StartSpanFromContextWithTracer_def applyOptions_def updTest_def mutexOp_def
        SetBaggageItem_def updSpan_def Reset_def Name_def startedTest_def ctxOr_def trackedTags_def
      split: option.splits)
  done

lemma startTracked_fresh:
  assumes "testMap w t = None"
  shows "startTracked E t p opts w =
    (let r = nextRef w;
         x = startedTest p opts \<lparr>test_ctx = None, test_span = None, test_t = t, test_codePC = 0\<rparr>;
         s = nextSpan w
     in (w\<lparr>heap := (heap w)(r := x\<lparr>test_span := Some s,
                                   test_ctx := Some (ContextWithSpan (ctxOr (test_ctx x)) s)\<rparr>),
           nextRef := Suc r,
           testMap := (testMap w)(t \<mapsto> r),
           spans := (spans w)(s :=
              \<lparr>sp_name = GetOriginalTestName E (T_name (hosts w t)),
               sp_tags = trackedTags E t p w,
               sp_baggage = [(''trace.kind'', ''test'')],
               sp_parent = SpanFromContext (ctxOr (test_ctx x)), sp_start = None, sp_events = [],
               sp_finishes = [], sp_own = ownTracer E\<rparr>),
           nextSpan := Suc s,
           pendingLogs := [],
           counters := StartCoverage E (counters w),
           lockLog := lockLog w @ [Lock testMapMutex, Unlock testMapMutex]\<rparr>,
         Return r))"
  using assms
  by (simp add: startTracked_def getOrCreateTest_def Let_def case_prod_beta obind_def
        StartSpanFromContextWithTracer_def applyOptions_def updTest_def mutexOp_def
        SetBaggageItem_def updSpan_def Reset_def Name_def startedTest_def ctxOr_def trackedTags_def
      split: option.splits)

lemma startCached_unfold:
  "startCached E t p opts w =
    (let r = nextRef w; x = cachedTest t opts; s = nextSpan w;
         w1 = w\<lparr>heap := (heap w)(r := x), nextRef := Suc r\<rparr>
     in case test_ctx x of
          None \<Rightarrow> (w1, Panic nilDereference)
        | Some c \<Rightarrow>
           (w1\<lparr>spans := (spans w)(s :=
              \<lparr>sp_name = GetOriginalTestName E (T_name (hosts w t)),
               sp_tags = testTags (GetOriginalTestName E (T_name (hosts w t)))
                           (fst (GetPackageAndName E p))
                         @ [(Key ''test.status'', StatusVal TestStatus_CACHE)],
               sp_baggage = [(''trace.kind'', ''test'')],
               sp_parent = SpanFromContext c, sp_start = None, sp_events = [],
               sp_finishes = [\<lparr>FinishTime = None, LogRecords = []\<rparr>], sp_own = ownTracer E\<rparr>),
             nextSpan := Suc s,
             hosts := (hosts w)(t := (hosts w t)\<lparr>T_skipped := True, T_finished := True\<rparr>)\<rparr>,
            Goexit))"
  by (simp add: startCached_def Let_def case_prod_beta obind_def
        StartSpanFromContextWithTracer_def applyOptions_def updTest_def SkipNow_def updHost_def
        Finish_def FinishWithOptions_def SetTag_def
        SetBaggageItem_def updSpan_def Name_def cachedTest_def
      split: option.splits)

lemma E0_miss: "GetCachedTestsMap E0 (fqnOf E0 0) = None"
  by (simp add: E0_def fqnOf_def cachedTestsOf_def LoadSessionConfiguration_def)

lemma E0_hit: "GetCachedTestsMap E0 (fqnOf E0 7) = Some True"
  by (simp add: E0_def fqnOf_def cachedTestsOf_def LoadSessionConfiguration_def)

lemma StartTestFromCaller_miss:
  "GetCachedTestsMap E (fqnOf E p) = None \<Longrightarrow>
   StartTestFromCaller E t p opts w =
     startTracked E t p opts (Printf (''Test '' @ quote (fqnOf E p) @ '' is not cached.'') w)"
  by (simp add: StartTestFromCaller_def isTestCached_miss)

lemma StartTestFromCaller_hit:
  "GetCachedTestsMap E (fqnOf E p) = Some b \<Longrightarrow>
   StartTestFromCaller E t p opts w =
     startCached E t p opts (SkipAndFinishTest t
        (Print ''[SCOPE CACHED] '' (Printf (''Test '' @ quote (fqnOf E p) @ '' is cached.'') w)))"
  by (simp add: StartTestFromCaller_def isTestCached_hit)

section \<open>A unit without span\<close>

text \<open>
  C9. \<^verbatim>\<open>end\<close> on a unit whose span is nil, and on the nil pointer, returns at once with the
  state as it was: no span is finished, the live set is not touched, nothing panics.
  \<^verbatim>\<open>End\<close> on such a unit does the same, apart from taking and releasing its read lock of the
  auto-instrumented map. The unit \<^verbatim>\<open>GetTest\<close> builds for a handle that is not tracked is
  such a unit. (The cached branch hands no unit to its caller, see C1; this theorem covers
  every unit with a nil span, wherever it comes from.)
\<close>

theorem C9_end_without_span:
  "(test_span (heap w r) = None \<longrightarrow>
      end' E (Some r) fr w = (w, Return ())
      \<and> End E r w =
          (w\<lparr>lockLog := lockLog w @ [RLock autoInstrumentedTestsMutex,
                                     RUnlock autoInstrumentedTestsMutex]\<rparr>, Return ()))
   \<and> end' E None fr w = (w, Return ())
   \<and> (testMap w t = None \<longrightarrow>
        (case GetTest t w of (w1, u) \<Rightarrow>
           test_span (heap w1 u) = None \<and> test_t (heap w1 u) = t
           \<and> testMap w1 = testMap w \<and> spans w1 = spans w
           \<and> end' E (Some u) fr w1 = (w1, Return ())
           \<and> fst (End E u w1) =
               w1\<lparr>lockLog := lockLog w1 @ [RLock autoInstrumentedTestsMutex,
                                           RUnlock autoInstrumentedTestsMutex]\<rparr>
           \<and> snd (End E u w1) = Return ()))"
  by (simp add: end'_def End_def GetTest_def mutexOp_def Let_def split: option.splits)

text \<open>In the state that has started no test: the struct at address 0, and handle 5.\<close>

theorem C9_end_without_span_witness:
  "test_span (heap W0 0) = None \<and> testMap W0 5 = None
   \<and> end' E0 (Some 0) Direct W0 = (W0, Return ())
   \<and> snd (End E0 0 W0) = Return ()
   \<and> spans (fst (End E0 0 W0)) = spans W0
   \<and> testMap (fst (End E0 0 W0)) = testMap W0
   \<and> test_span (heap (fst (GetTest 5 W0)) (snd (GetTest 5 W0))) = None
   \<and> snd (End E0 (snd (GetTest 5 W0)) (fst (GetTest 5 W0))) = Return ()"
  using C9_end_without_span [of W0 0 E0 Direct 5]
  by (simp add: W0_def split: prod.splits)

section \<open>Coverage at the end of a test\<close>

lemma filter_cov_endCovTags:
  "filter (\<lambda>kv. fst kv = Coverage) (endCovTags E t w) = endCovTags E t w"
  by (cases "CoverMode E = []"; cases "coverageUnsafe E t w";
      cases "snd (EndCoverage E (counters w))") (simp_all add: endCovTags_def)

lemma filter_cov_endStatusTags:
  "filter (\<lambda>kv. fst kv = Coverage) (endStatusTags fr t w) = []"
  by (simp add: endStatusTags_def split: option.splits)

lemma filter_status_endCovTags:
  "filter (\<lambda>kv. fst kv = Key ''test.status'') (endCovTags E t w) = []"
  by (cases "CoverMode E = []"; cases "coverageUnsafe E t w";
      cases "snd (EndCoverage E (counters w))") (simp_all add: endCovTags_def)

lemma filter_status_endStatusTags:
  "filter (\<lambda>kv. fst kv = Key ''test.status'') (endStatusTags fr t w) =
     [(Key ''test.status'',
       StatusVal (if recover fr \<noteq> None \<or> T_failed (hosts w t) then TestStatus_FAIL
                  else if T_skipped (hosts w t) then TestStatus_SKIP else TestStatus_PASS))]"
  by (simp add: endStatusTags_def split: option.splits)

lemma end_covTags:
  "test_span (heap w r) = Some s \<Longrightarrow>
   covTags (spans (fst (end' E (Some r) fr w)) s) =
     covTags (spans w s) @ endCovTags E (test_t (heap w r)) w"
  by (simp add: covTags_def end_tags filter_cov_endCovTags filter_cov_endStatusTags)

lemma end_statusTags:
  "test_span (heap w r) = Some s \<Longrightarrow>
   statusTags (spans (fst (end' E (Some r) fr w)) s) =
     statusTags (spans w s) @
     [(Key ''test.status'',
       StatusVal (if recover fr \<noteq> None \<or> T_failed (hosts w (test_t (heap w r)))
                  then TestStatus_FAIL
                  else if T_skipped (hosts w (test_t (heap w r))) then TestStatus_SKIP
                  else TestStatus_PASS))]"
  by (simp add: statusTags_def end_tags filter_status_endCovTags filter_status_endStatusTags)

text \<open>
  C4. With a non-empty \<^verbatim>\<open>testing.CoverMode()\<close>, \<^verbatim>\<open>end\<close> on a unit with a span decides
  about the coverage as follows. If the host test is parallel and the variable
  \<^verbatim>\<open>parallel\<close> exceeds one, the counters become what \<^verbatim>\<open>RestoreCoverageCounters\<close> makes
  of them, the diagnostic is logged, and the coverage tags of the span stay as they were.
  Otherwise the counters become what \<^verbatim>\<open>EndCoverage\<close> leaves, no diagnostic is logged, and
  the span gets one coverage tag holding the delta exactly when \<^verbatim>\<open>EndCoverage\<close> returns
  one. No other span changes. This holds however \<^verbatim>\<open>end\<close> was entered.
\<close>

theorem C4_coverage_attribution:
  assumes "test_span (heap w r) = Some s" and "CoverMode E \<noteq> []"
  shows "(let t = test_t (heap w r); w' = fst (end' E (Some r) fr w) in
          (if T_isParallel (hosts w t) \<and> parallel E > 1 then
             counters w' = RestoreCoverageCounters E (counters w)
             \<and> logger w' = logger (endStartTime t s w)
                  @ [''CodePath in parallel test is not supported: '' @ T_name (hosts w t)
                       @ [CHR 0x0A]]
             \<and> covTags (spans w' s) = covTags (spans w s)
           else
             counters w' = fst (EndCoverage E (counters w))
             \<and> logger w' = logger (endStartTime t s w)
             \<and> covTags (spans w' s) = covTags (spans w s)
                  @ (case snd (EndCoverage E (counters w)) of
                       Some cv \<Rightarrow> [(Coverage, CovVal cv)] | None \<Rightarrow> []))
          \<and> (\<forall>s'. s' \<noteq> s \<longrightarrow> spans w' s' = spans w s'))"
  using assms
  by (simp add: Let_def end_counters end_logger end_covTags end_other_spans endCovTags_def
        coverageUnsafe_def)

section \<open>The example states, written out\<close>

lemma W1_eq:
  "W1 = W0\<lparr>heap := (heap W0)(0 := \<lparr>test_ctx = Some (ContextWithSpan Background 0),
                                     test_span = Some 0, test_t = 0, test_codePC = 0\<rparr>),
           nextRef := 1,
           testMap := [0 \<mapsto> 0],
           spans := (spans W0)(0 :=
              \<lparr>sp_name = ''Test'',
               sp_tags = testTags ''Test'' ''go.undefinedlabs.com/scopeagent/agent'',
               sp_baggage = [(''trace.kind'', ''test'')],
               sp_parent = None, sp_start = None, sp_events = [],
               sp_finishes = [], sp_own = True\<rparr>),
           nextSpan := 1,
           pendingLogs := [],
           logger := [''Test '' @ quote ''go.undefinedlabs.com/scopeagent/agent.TestFirstTest''
                        @ '' is not cached.''],
           counters := [0, 0],
           lockLog := [Lock testMapMutex, Unlock testMapMutex]\<rparr>"
  unfolding W1_def
  apply (simp add: StartTestFromCaller_miss [OF E0_miss])
  apply (subst startTracked_fresh)
   apply (simp add: Printf_def W0_def)
  apply (simp add: Let_def startedTest_def ctxOr_def trackedTags_def Printf_def)
  apply (simp add: W0_def E0_def fqnOf_def)
  done


lemma W2_eq:
  "W2 = W1\<lparr>heap := (heap W1)(1 := \<lparr>test_ctx = Some (ContextWithSpan Background 1),
                                     test_span = Some 1, test_t = 1, test_codePC = 0\<rparr>),
           nextRef := 2,
           testMap := [0 \<mapsto> 0, 1 \<mapsto> 1],
           spans := (spans W1)(1 :=
              \<lparr>sp_name = ''Test'',
               sp_tags = testTags ''Test'' ''go.undefinedlabs.com/scopeagent/agent'',
               sp_baggage = [(''trace.kind'', ''test'')],
               sp_parent = None, sp_start = None, sp_events = [],
               sp_finishes = [], sp_own = True\<rparr>),
           nextSpan := 2,
           pendingLogs := [],
           logger := logger W1 @
                     [''Test '' @ quote ''go.undefinedlabs.com/scopeagent/agent.TestFirstTest''
                        @ '' is not cached.''],
           counters := [0, 0],
           lockLog := [Lock testMapMutex, Unlock testMapMutex,
                       Lock testMapMutex, Unlock testMapMutex]\<rparr>"
  unfolding W2_def
  apply (simp add: StartTestFromCaller_miss [OF E0_miss])
  apply (subst startTracked_fresh)
   apply (simp add: Printf_def W1_eq W0_def)
  apply (simp add: Let_def startedTest_def ctxOr_def trackedTags_def Printf_def)
  apply (simp add: W1_eq W0_def E0_def fqnOf_def)
  done

lemma W1_facts:
  "test_span (heap W1 0) = Some 0" "test_t (heap W1 0) = 0" "testMap W1 0 = Some 0"
  "nextRef W1 = 1" "nextSpan W1 = 1" "hosts W1 = hosts W0" "counters W1 = [0, 0]"
  "sp_tags (spans W1 0) = testTags ''Test'' ''go.undefinedlabs.com/scopeagent/agent''"
  "sp_finishes (spans W1 0) = []" "sp_events (spans W1 0) = []" "pendingLogs W1 = []"
  "autoInstrumentedTests W1 = Map.empty"
  by (simp_all add: W1_eq W0_def)

lemma W2_facts:
  "test_span (heap W2 0) = Some 0" "test_t (heap W2 0) = 0" "testMap W2 0 = Some 0"
  "test_span (heap W2 (Suc 0)) = Some (Suc 0)" "test_t (heap W2 (Suc 0)) = Suc 0"
  "testMap W2 (Suc 0) = Some (Suc 0)"
  "nextRef W2 = 2" "nextSpan W2 = 2" "hosts W2 = hosts W0" "counters W2 = [0, 0]"
  "sp_tags (spans W2 0) = testTags ''Test'' ''go.undefinedlabs.com/scopeagent/agent''"
  "sp_tags (spans W2 (Suc 0)) = testTags ''Test'' ''go.undefinedlabs.com/scopeagent/agent''"
  "sp_finishes (spans W2 0) = []" "sp_events (spans W2 0) = []"
  "sp_finishes (spans W2 (Suc 0)) = []" "sp_events (spans W2 (Suc 0)) = []"
  "autoInstrumentedTests W2 = Map.empty"
  by (simp_all add: W2_eq W1_eq W0_def)

lemma W2_dom: "dom (testMap W2) = {0, Suc 0}"
  by (auto simp: W2_eq W1_eq W0_def)

lemma E0_facts:
  "CoverMode E0 = ''set''" "parallel E0 = 2" "Now E0 = 100"
  "RestoreCoverageCounters E0 cs = cs" "EndCoverage E0 cs = (cs, Some (sum_list cs))"
  by (simp_all add: E0_def)

lemma W0_hosts:
  "T_isParallel (hosts W0 t) = (t = Suc 0)" "T_failed (hosts W0 t) = False"
  "T_skipped (hosts W0 t) = False" "T_name (hosts W0 t) = ''Test''"
  by (simp_all add: W0_def)

text \<open>
  In the state with tests 0 and 1 started, test 1 is parallel and \<^verbatim>\<open>parallel\<close> is 2: its
  end restores the counters and tags nothing, while the end of test 0 tags the delta.
\<close>

theorem C4_coverage_attribution_witness:
  "test_span (heap W2 (Suc 0)) = Some (Suc 0) \<and> CoverMode E0 \<noteq> []
   \<and> T_isParallel (hosts W2 (test_t (heap W2 (Suc 0)))) \<and> parallel E0 > 1
   \<and> counters (fst (end' E0 (Some (Suc 0)) Direct W2))
       = RestoreCoverageCounters E0 (counters W2)
   \<and> covTags (spans (fst (end' E0 (Some (Suc 0)) Direct W2)) (Suc 0)) = []
   \<and> test_span (heap W2 0) = Some 0
   \<and> \<not> T_isParallel (hosts W2 (test_t (heap W2 0)))
   \<and> covTags (spans (fst (end' E0 (Some 0) Direct W2)) 0) = [(Coverage, CovVal 0)]"
  using C4_coverage_attribution [of W2 "Suc 0" "Suc 0" E0 Direct]
        C4_coverage_attribution [of W2 0 0 E0 Direct]
  by (simp add: W2_facts E0_facts W0_hosts Let_def covTags_def testTags_def)

section \<open>The end of a test whose body panicked\<close>

lemma tagValue_end:
  "test_span (heap w r) = Some s \<Longrightarrow>
   tagValue (spans (fst (end' E (Some r) fr w)) s) (Key ''test.status'') =
     Some (StatusVal (if recover fr \<noteq> None \<or> T_failed (hosts w (test_t (heap w r)))
                      then TestStatus_FAIL
                      else if T_skipped (hosts w (test_t (heap w r))) then TestStatus_SKIP
                      else TestStatus_PASS))"
  by (cases "recover fr") (simp_all add: tagValue_def end_tags endStatusTags_def)

lemma Printf_frame:
  "heap (Printf m w) = heap w" "nextRef (Printf m w) = nextRef w"
  "testMap (Printf m w) = testMap w" "autoInstrumentedTests (Printf m w) = autoInstrumentedTests w"
  "spans (Printf m w) = spans w" "nextSpan (Printf m w) = nextSpan w"
  "hosts (Printf m w) = hosts w" "pendingLogs (Printf m w) = pendingLogs w"
  "stdout (Printf m w) = stdout w" "counters (Printf m w) = counters w"
  "lockLog (Printf m w) = lockLog w" "logger (Printf m w) = logger w @ [m]"
  by (simp_all add: Printf_def)

lemma StartTestFromCaller_fresh:
  assumes "GetCachedTestsMap E (fqnOf E p) = None" and "testMap w t = None"
  shows "snd (StartTestFromCaller E t p opts w) = Return (nextRef w)"
    and "testMap (fst (StartTestFromCaller E t p opts w)) = (testMap w)(t \<mapsto> nextRef w)"
    and "test_span (heap (fst (StartTestFromCaller E t p opts w)) (nextRef w)) = Some (nextSpan w)"
    and "u \<noteq> nextRef w \<Longrightarrow> heap (fst (StartTestFromCaller E t p opts w)) u = heap w u"
    and "sp_finishes (spans (fst (StartTestFromCaller E t p opts w)) (nextSpan w)) = []"
    and "statusTags (spans (fst (StartTestFromCaller E t p opts w)) (nextSpan w)) = []"
    and "s \<noteq> nextSpan w \<Longrightarrow> spans (fst (StartTestFromCaller E t p opts w)) s = spans w s"
    and "autoInstrumentedTests (fst (StartTestFromCaller E t p opts w)) = autoInstrumentedTests w"
    and "nextRef (fst (StartTestFromCaller E t p opts w)) = Suc (nextRef w)"
    and "nextSpan (fst (StartTestFromCaller E t p opts w)) = Suc (nextSpan w)"
    and "hosts (fst (StartTestFromCaller E t p opts w)) = hosts w"
  using assms
  by (simp_all add: StartTestFromCaller_miss startTracked_fresh Let_def Printf_frame
        statusTags_def trackedTags_def testTags_def)

text \<open>
  Let \<^verbatim>\<open>end\<close> run as the deferred call of a function that is panicking with \<open>v\<close>, on
  an allocated unit with a span: this is how the wrapper of \<^verbatim>\<open>Run\<close> enters it when the test
  body panics, and it is the case in which \<^verbatim>\<open>recover()\<close> gives \<open>v\<close>. Then \<^verbatim>\<open>end\<close> panics
  with the same \<open>v\<close>, and in the state it leaves the unit's handle is out of the live set,
  the span has got exactly one more status tag, FAIL, which is its status, one more
  exception event \<open>(v, 1)\<close>, and one more finish, with the finish time and the pending log
  records. A later non-cached start for the same handle returns a unit at another address
  with another span, not finished and without status; the old struct and the old span are
  not changed by it.
\<close>

lemma end_deferred_during_panic:
  assumes "test_span (heap w r) = Some s" and "r < nextRef w" and "s < nextSpan w"
    and "GetCachedTestsMap E (fqnOf E p) = None"
  shows "(case end' E (Some r) (Deferred (Some v)) w of (w', res) \<Rightarrow>
            res = Panic v
            \<and> testMap w' = (testMap w)(test_t (heap w r) := None)
            \<and> statusTags (spans w' s) =
                statusTags (spans w s) @ [(Key ''test.status'', StatusVal TestStatus_FAIL)]
            \<and> tagValue (spans w' s) (Key ''test.status'') = Some (StatusVal TestStatus_FAIL)
            \<and> sp_events (spans w' s) = sp_events (spans w s) @ [(v, 1)]
            \<and> sp_finishes (spans w' s) =
                sp_finishes (spans w s)
                  @ [\<lparr>FinishTime = Some (Now E), LogRecords = pendingLogs w\<rparr>]
            \<and> (case StartTestFromCaller E (test_t (heap w r)) p opts w' of (w'', res') \<Rightarrow>
                  (\<exists>r' s'. res' = Return r' \<and> r' \<noteq> r \<and> s' \<noteq> s
                     \<and> testMap w'' (test_t (heap w r)) = Some r'
                     \<and> test_span (heap w'' r') = Some s'
                     \<and> sp_finishes (spans w'' s') = [] \<and> statusTags (spans w'' s') = []
                     \<and> heap w'' r = heap w r \<and> spans w'' s = spans w' s)))"
proof -
  let ?w' = "fst (end' E (Some r) (Deferred (Some v)) w)"
  let ?t = "test_t (heap w r)"
  note a = assms(1)
  have m: "testMap ?w' ?t = None" by (simp add: end_testMap [OF a])
  have nr: "nextRef ?w' = nextRef w" and ns: "nextSpan ?w' = nextSpan w"
    and hp: "heap ?w' = heap w"
    by (simp_all add: end_frame [OF a])
  note st = StartTestFromCaller_fresh [OF assms(4) m, where opts = opts, unfolded nr ns]
  have "\<exists>r' s'. snd (StartTestFromCaller E ?t p opts ?w') = Return r' \<and> r' \<noteq> r \<and> s' \<noteq> s
          \<and> testMap (fst (StartTestFromCaller E ?t p opts ?w')) ?t = Some r'
          \<and> test_span (heap (fst (StartTestFromCaller E ?t p opts ?w')) r') = Some s'
          \<and> sp_finishes (spans (fst (StartTestFromCaller E ?t p opts ?w')) s') = []
          \<and> statusTags (spans (fst (StartTestFromCaller E ?t p opts ?w')) s') = []
          \<and> heap (fst (StartTestFromCaller E ?t p opts ?w')) r = heap w r
          \<and> spans (fst (StartTestFromCaller E ?t p opts ?w')) s = spans ?w' s"
    apply (rule exI [of _ "nextRef w"])
    apply (rule exI [of _ "nextSpan w"])
    using assms(2,3) st(4) [of r] st(7) [of s]
    by (simp add: st(1,2,3,5,6) nr ns hp)
  then show ?thesis
    by (simp add: case_prod_beta end_outcome [OF a] end_testMap [OF a] end_statusTags [OF a]
          tagValue_end [OF a] end_events [OF a] end_finishes [OF a])
qed

text \<open>Test 0 of the example, ended while its body panics with \<open>boom\<close>.\<close>

lemma end_deferred_during_panic_example:
  "test_span (heap W1 0) = Some 0 \<and> 0 < nextRef W1 \<and> 0 < nextSpan W1
   \<and> GetCachedTestsMap E0 (fqnOf E0 0) = None
   \<and> snd (end' E0 (Some 0) (Deferred (Some ''boom'')) W1) = Panic ''boom''
   \<and> testMap (fst (end' E0 (Some 0) (Deferred (Some ''boom'')) W1)) 0 = None
   \<and> tagValue (spans (fst (end' E0 (Some 0) (Deferred (Some ''boom'')) W1)) 0)
        (Key ''test.status'') = Some (StatusVal TestStatus_FAIL)
   \<and> sp_events (spans (fst (end' E0 (Some 0) (Deferred (Some ''boom'')) W1)) 0)
       = [(''boom'', 1)]
   \<and> sp_finishes (spans (fst (end' E0 (Some 0) (Deferred (Some ''boom'')) W1)) 0)
       = [\<lparr>FinishTime = Some 100, LogRecords = []\<rparr>]
   \<and> snd (StartTestFromCaller E0 0 0 []
             (fst (end' E0 (Some 0) (Deferred (Some ''boom'')) W1))) \<noteq> Return 0"
  using end_deferred_during_panic [of W1 0 0 E0 0 "''boom''" "[]"] E0_miss
  by (auto simp add: W1_facts E0_facts case_prod_beta)

text \<open>
  Through \<^verbatim>\<open>End\<close> the method \<^verbatim>\<open>end\<close> is an ordinary call and its \<^verbatim>\<open>recover()\<close> gives nil,
  whatever the test is doing. For a unit with a span whose handle is not auto-instrumented,
  \<^verbatim>\<open>End\<close> returns, records no exception event, and the one status tag it adds is the one
  the host test's flags give.
\<close>

lemma End_not_deferred:
  assumes "test_span (heap w r) = Some s"
    and "autoInstrumentedTests w (test_t (heap w r)) = None"
  shows "snd (End E r w) = Return ()"
    and "sp_events (spans (fst (End E r w)) s) = sp_events (spans w s)"
    and "statusTags (spans (fst (End E r w)) s) =
           statusTags (spans w s) @
           [(Key ''test.status'',
             StatusVal (if T_failed (hosts w (test_t (heap w r))) then TestStatus_FAIL
                        else if T_skipped (hosts w (test_t (heap w r))) then TestStatus_SKIP
                        else TestStatus_PASS))]"
    and "testMap (fst (End E r w)) = (testMap w)(test_t (heap w r) := None)"
    and "sp_finishes (spans (fst (End E r w)) s) =
           sp_finishes (spans w s) @ [\<lparr>FinishTime = Some (Now E), LogRecords = pendingLogs w\<rparr>]"
proof -
  let ?w1 = "mutexOp (RLock autoInstrumentedTestsMutex) w"
  have a: "test_span (heap ?w1 r) = Some s" using assms(1) by (simp add: mutexOp_frame)
  have e: "End E r w =
             (mutexOp (RUnlock autoInstrumentedTestsMutex) (fst (end' E (Some r) Direct ?w1)),
              snd (end' E (Some r) Direct ?w1))"
    using assms(2) by (simp add: End_def Let_def case_prod_beta mutexOp_frame)
  show "snd (End E r w) = Return ()"
    by (simp add: e end_outcome [OF a] recover.simps)
  show "sp_events (spans (fst (End E r w)) s) = sp_events (spans w s)"
    by (simp add: e mutexOp_frame end_events [OF a] recover.simps)
  show "statusTags (spans (fst (End E r w)) s) =
           statusTags (spans w s) @
           [(Key ''test.status'',
             StatusVal (if T_failed (hosts w (test_t (heap w r))) then TestStatus_FAIL
                        else if T_skipped (hosts w (test_t (heap w r))) then TestStatus_SKIP
                        else TestStatus_PASS))]"
    by (simp add: e mutexOp_frame end_statusTags [OF a] recover.simps)
  show "testMap (fst (End E r w)) = (testMap w)(test_t (heap w r) := None)"
    by (simp add: e mutexOp_frame end_testMap [OF a])
  show "sp_finishes (spans (fst (End E r w)) s) =
           sp_finishes (spans w s) @ [\<lparr>FinishTime = Some (Now E), LogRecords = pendingLogs w\<rparr>]"
    by (simp add: e mutexOp_frame end_finishes [OF a])
qed

text \<open>
  C6. The claim says that when \<^verbatim>\<open>end\<close> runs while a panic of the test body unwinds, the
  span is tagged FAIL, gets the panic as an exception event, and the same panic is raised
  again by \<^verbatim>\<open>end\<close>. Test 0 of the example defers \<^verbatim>\<open>End\<close> and its body panics with
  \<open>boom\<close>: the unit leaves the live set and the span is finished once, but the status the
  span gets is PASS, it gets no exception event, and \<^verbatim>\<open>End\<close> returns; the panic that goes
  on is the body's own.
\<close>

theorem C6_End_during_panic:
  "testMap W1 0 = Some 0 \<and> autoInstrumentedTests W1 0 = None
   \<and> snd (End E0 0 W1) = Return ()
   \<and> snd (deferEnd E0 0 (\<lambda>t w. (w, Panic ''boom'')) 0 W1) = Panic ''boom''
   \<and> testMap (fst (deferEnd E0 0 (\<lambda>t w. (w, Panic ''boom'')) 0 W1)) 0 = None
   \<and> statusTags (spans (fst (deferEnd E0 0 (\<lambda>t w. (w, Panic ''boom'')) 0 W1)) 0)
       = [(Key ''test.status'', StatusVal TestStatus_PASS)]
   \<and> sp_events (spans (fst (deferEnd E0 0 (\<lambda>t w. (w, Panic ''boom'')) 0 W1)) 0) = []
   \<and> sp_finishes (spans (fst (deferEnd E0 0 (\<lambda>t w. (w, Panic ''boom'')) 0 W1)) 0)
       = [\<lparr>FinishTime = Some 100, LogRecords = []\<rparr>]"
proof -
  have a: "test_span (heap W1 0) = Some 0"
    and b: "autoInstrumentedTests W1 (test_t (heap W1 0)) = None"
    by (simp_all add: W1_facts)
  have d: "deferEnd E0 0 (\<lambda>t w. (w, Panic ''boom'')) 0 W1 = (fst (End E0 0 W1), Panic ''boom'')"
    by (simp add: deferEnd_def Let_def case_prod_beta End_not_deferred(1) [OF a b])
  have st: "statusTags (spans W1 0) = []"
    by (simp add: statusTags_def W1_facts testTags_def)
  show ?thesis
    unfolding d
    by (simp add: End_not_deferred [OF a b] st W1_facts E0_facts W0_hosts)
qed

section \<open>Starting a cached test\<close>

lemma cachedTest_WithContext:
  "\<forall>opt\<in>set opts. \<exists>c. opt = WithContext c \<Longrightarrow>
   test_span (foldl (\<lambda>y opt. opt y) x opts) = test_span x
   \<and> test_t (foldl (\<lambda>y opt. opt y) x opts) = test_t x"
  by (induction opts arbitrary: x) (auto simp: WithContext_def)

text \<open>
  C1, as amended. When the name \<^verbatim>\<open>isTestCached\<close> builds is a key of the cached tests,
  \<^verbatim>\<open>StartTestFromCaller\<close> leaves the live set and the auto-instrumented set as they were,
  and the host test skipped and finished. It builds one struct, which is in no map and,
  when the options are \<^verbatim>\<open>WithContext\<close> options, has no span. No unit is returned: when
  the options leave the struct a context that is not nil, the call emits one new span whose
  only status tag is CACHE and which is finished once, with the default options, and then
  ends the goroutine (\<^verbatim>\<open>t.SkipNow\<close>). No span that existed before is changed.
  \<^verbatim>\<open>StartTest\<close> is the same call, made with the program counter of its caller.
\<close>

theorem C1_cached_start:
  assumes "GetCachedTestsMap E (fqnOf E p) = Some b"
  shows "StartTest E p t opts w = StartTestFromCaller E t p opts w
          \<and> (case StartTestFromCaller E t p opts w of (w', res) \<Rightarrow>
            testMap w' = testMap w
            \<and> autoInstrumentedTests w' = autoInstrumentedTests w
            \<and> T_skipped (hosts w' t) \<and> T_finished (hosts w' t)
            \<and> (\<forall>u. res \<noteq> Return u)
            \<and> heap w' (nextRef w) = cachedTest t opts
            \<and> (\<forall>u. u \<noteq> nextRef w \<longrightarrow> heap w' u = heap w u)
            \<and> ((\<forall>opt\<in>set opts. \<exists>c. opt = WithContext c) \<longrightarrow>
                  test_span (heap w' (nextRef w)) = None)
            \<and> ((\<forall>k u. testMap w k = Some u \<longrightarrow> u < nextRef w) \<longrightarrow>
                  (\<forall>k. testMap w' k \<noteq> Some (nextRef w)))
            \<and> (\<forall>s. s \<noteq> nextSpan w \<longrightarrow> spans w' s = spans w s)
            \<and> (test_ctx (cachedTest t opts) \<noteq> None \<longrightarrow>
                    res = Goexit
                    \<and> nextSpan w' = Suc (nextSpan w)
                    \<and> sp_tags (spans w' (nextSpan w)) =
                        testTags (GetOriginalTestName E (T_name (hosts w t)))
                          (fst (GetPackageAndName E p))
                        @ [(Key ''test.status'', StatusVal TestStatus_CACHE)]
                    \<and> statusTags (spans w' (nextSpan w)) =
                        [(Key ''test.status'', StatusVal TestStatus_CACHE)]
                    \<and> sp_finishes (spans w' (nextSpan w)) =
                        [\<lparr>FinishTime = None, LogRecords = []\<rparr>]))"
proof -
  have ws: "(\<forall>opt\<in>set opts. \<exists>c. opt = WithContext c) \<longrightarrow> test_span (cachedTest t opts) = None"
    using cachedTest_WithContext [of opts] by (auto simp: cachedTest_def)
  have fresh: "(\<forall>k u. testMap w k = Some u \<longrightarrow> u < nextRef w)
                 \<longrightarrow> (\<forall>k. testMap w k \<noteq> Some (nextRef w))"
    by auto
  show ?thesis
  proof (cases "test_ctx (cachedTest t opts)")
    case None
    then show ?thesis
      using ws fresh
      by (simp add: StartTest_def StartTestFromCaller_hit [OF assms] startCached_unfold Let_def
            SkipAndFinishTest_def Print_def Printf_def updHost_def)
  next
    case (Some c)
    then show ?thesis
      using ws fresh
      by (simp add: StartTest_def StartTestFromCaller_hit [OF assms] startCached_unfold Let_def
            SkipAndFinishTest_def Print_def Printf_def updHost_def statusTags_def testTags_def)
  qed
qed

text \<open>
  \<^verbatim>\<open>TestSkipped\<close> of the agent package, which the dummy loader's session marks skipped,
  started in the state that has started no test.
\<close>

theorem C1_cached_start_witness:
  "GetCachedTestsMap E0 (fqnOf E0 7) = Some True
   \<and> testMap (fst (StartTestFromCaller E0 0 7 [] W0)) = testMap W0
   \<and> T_skipped (hosts (fst (StartTestFromCaller E0 0 7 [] W0)) 0)
   \<and> snd (StartTestFromCaller E0 0 7 [] W0) = Goexit
   \<and> statusTags (spans (fst (StartTestFromCaller E0 0 7 [] W0)) 0)
       = [(Key ''test.status'', StatusVal TestStatus_CACHE)]
   \<and> sp_finishes (spans (fst (StartTestFromCaller E0 0 7 [] W0)) 0)
       = [\<lparr>FinishTime = None, LogRecords = []\<rparr>]"
  using C1_cached_start [OF E0_hit, where t = 0 and opts = "[]" and w = W0]
  by (simp add: E0_hit case_prod_beta cachedTest_def W0_def)

text \<open>
  The claim as written says the call returns a unit. In the same example it ends the
  goroutine instead.
\<close>

theorem C1_cached_start_counterexample:
  "snd (StartTestFromCaller E0 0 7 [] W0) = Goexit"
  by (simp add: StartTestFromCaller_hit [OF E0_hit] startCached_unfold Let_def cachedTest_def)

section \<open>Starting a test that is already tracked\<close>

text \<open>
  C2, as amended. A non-cached \<^verbatim>\<open>StartTestFromCaller\<close> for a handle that is in the live set
  returns the unit the live set holds and leaves the live set as it was. The struct of the
  unit becomes: context reset to the background context, the new code location, the
  options applied, and then both its span and its context replaced, by a span opened now
  and by the context that carries this span. No other struct changes. The new span is not
  finished, and no span that existed before is changed: the span the unit had is
  neither tagged nor finished, it is only no longer the unit's span.
\<close>

theorem C2_restart_replaces_span:
  assumes "GetCachedTestsMap E (fqnOf E p) = None" and "testMap w t = Some r"
  shows "(case StartTestFromCaller E t p opts w of (w', res) \<Rightarrow>
            res = Return r
            \<and> testMap w' = testMap w
            \<and> heap w' r =
                (let x = startedTest p opts ((heap w r)\<lparr>test_ctx := Some Background\<rparr>)
                 in x\<lparr>test_span := Some (nextSpan w),
                      test_ctx := Some (ContextWithSpan (ctxOr (test_ctx x)) (nextSpan w))\<rparr>)
            \<and> test_span (heap w' r) = Some (nextSpan w)
            \<and> (\<forall>u. u \<noteq> r \<longrightarrow> heap w' u = heap w u)
            \<and> nextSpan w' = Suc (nextSpan w)
            \<and> sp_finishes (spans w' (nextSpan w)) = []
            \<and> (\<forall>s. s \<noteq> nextSpan w \<longrightarrow> spans w' s = spans w s)
            \<and> (\<forall>s. test_span (heap w r) = Some s \<and> s < nextSpan w \<longrightarrow>
                   test_span (heap w' r) \<noteq> Some s \<and> spans w' s = spans w s))"
  using assms
  by (simp add: StartTestFromCaller_miss startTracked_existing Let_def Printf_frame)

text \<open>Test 0 of the example, started a second time with a context option.\<close>

theorem C2_restart_replaces_span_witness:
  "GetCachedTestsMap E0 (fqnOf E0 0) = None \<and> testMap W1 0 = Some 0
   \<and> snd (StartTestFromCaller E0 0 0 [WithContext (Some TODO)] W1) = Return 0
   \<and> test_span (heap (fst (StartTestFromCaller E0 0 0 [WithContext (Some TODO)] W1)) 0)
       = Some (Suc 0)
   \<and> test_ctx (heap (fst (StartTestFromCaller E0 0 0 [WithContext (Some TODO)] W1)) 0)
       = Some (ContextWithSpan TODO (Suc 0))
   \<and> spans (fst (StartTestFromCaller E0 0 0 [WithContext (Some TODO)] W1)) 0 = spans W1 0"
  using C2_restart_replaces_span [OF E0_miss W1_facts(3), where opts = "[WithContext (Some TODO)]"]
  by (simp add: E0_miss W1_facts case_prod_beta Let_def startedTest_def WithContext_def ctxOr_def)

text \<open>
  The claim as written says the span field is left unchanged. Test 0 of the example has
  span 0; after a second start its span is span 1.
\<close>

theorem C2_restart_replaces_span_counterexample:
  "testMap W1 0 = Some 0
   \<and> test_span (heap W1 0) = Some 0
   \<and> GetCachedTestsMap E0 (fqnOf E0 0) = None
   \<and> test_span (heap (fst (StartTestFromCaller E0 0 0 [] W1)) 0) = Some (Suc 0)"
  by (simp add: StartTestFromCaller_miss [OF E0_miss] startTracked_existing Let_def
        Printf_frame W1_facts E0_miss)

section \<open>Sub-tests started through Run\<close>

lemma addAutoInstrumentedTest_frame:
  "heap (addAutoInstrumentedTest t w) = heap w"
  "nextRef (addAutoInstrumentedTest t w) = nextRef w"
  "testMap (addAutoInstrumentedTest t w) = testMap w"
  "autoInstrumentedTests (addAutoInstrumentedTest t w) = (autoInstrumentedTests w)(t \<mapsto> True)"
  "spans (addAutoInstrumentedTest t w) = spans w"
  "nextSpan (addAutoInstrumentedTest t w) = nextSpan w"
  "hosts (addAutoInstrumentedTest t w) = hosts w"
  "pendingLogs (addAutoInstrumentedTest t w) = pendingLogs w"
  "counters (addAutoInstrumentedTest t w) = counters w"
  "lockLog (addAutoInstrumentedTest t w) =
     lockLog w @ [Lock autoInstrumentedTestsMutex, Unlock autoInstrumentedTestsMutex]"
  by (simp_all add: addAutoInstrumentedTest_def mutexOp_def)

lemma StartTestFromCaller_fresh_t:
  assumes "GetCachedTestsMap E (fqnOf E p) = None" and "testMap w t = None"
  shows "test_t (heap (fst (StartTestFromCaller E t p [] w)) (nextRef w)) = t"
  using assms
  by (simp add: StartTestFromCaller_miss startTracked_fresh Let_def Printf_frame startedTest_def)

lemma obind_alt:
  "obind m f = (case snd m of Return x \<Rightarrow> f x (fst m)
                | Panic v \<Rightarrow> (fst m, Panic v) | Goexit \<Rightarrow> (fst m, Goexit))"
  by (cases m) (simp add: obind_def split: outcome.splits)

lemma End_marked:
  "autoInstrumentedTests w (test_t (heap w c)) \<noteq> None \<Longrightarrow>
   End E c w = (mutexOp (RUnlock autoInstrumentedTestsMutex)
                  (mutexOp (RLock autoInstrumentedTestsMutex) w), Return ())"
  by (auto simp: End_def Let_def mutexOp_frame)

lemma GetTest_tracked:
  "testMap w t = Some c \<Longrightarrow>
   GetTest t w = (mutexOp (RUnlock testMapMutex) (mutexOp (RLock testMapMutex) w), c)"
  by (simp add: GetTest_def Let_def mutexOp_frame)

lemma endHook_marked:
  "testMap w t = Some c \<Longrightarrow> autoInstrumentedTests w (test_t (heap w c)) \<noteq> None \<Longrightarrow>
   endHook E t w =
     (mutexOp (RUnlock autoInstrumentedTestsMutex)
        (mutexOp (RLock autoInstrumentedTestsMutex)
           (mutexOp (RUnlock testMapMutex) (mutexOp (RLock testMapMutex) w))), Return ())"
  by (simp add: endHook_def GetTest_tracked End_marked mutexOp_frame)

lemma Run_instrumented:
  "test_span (heap w0 test) \<noteq> None \<Longrightarrow>
   Run E tRun p test name f w0 = tRun (test_t (heap w0 test)) name (runChild E p f) w0"
  by (auto simp: Run_def)

section \<open>The invariant of the live set\<close>

text \<open>
  The invariant holds when no test has been started, and the operations keep it (the
  options being \<^verbatim>\<open>WithContext\<close> options, the only ones the package offers). It gives the
  first hypothesis of the panic sweep below.
\<close>

lemma tracked_W0: "tracked W0"
  by (simp add: tracked_def W0_def)

lemma startedTest_WithContext:
  "\<forall>opt\<in>set opts. \<exists>c. opt = WithContext c \<Longrightarrow>
   test_t (startedTest p opts x) = test_t x"
  using cachedTest_WithContext [of opts "x\<lparr>test_codePC := p\<rparr>"]
  by (simp add: startedTest_def)

lemma tracked_StartTestFromCaller:
  assumes "tracked w" and "\<forall>opt\<in>set opts. \<exists>c. opt = WithContext c"
  shows "tracked (fst (StartTestFromCaller E t p opts w))"
proof (cases "GetCachedTestsMap E (fqnOf E p)")
  case None
  show ?thesis
  proof (cases "testMap w t")
    case None
    then show ?thesis
      using assms \<open>GetCachedTestsMap E (fqnOf E p) = None\<close>
      by (fastforce simp add: tracked_def StartTestFromCaller_miss startTracked_fresh Let_def
            Printf_frame startedTest_WithContext less_Suc_eq)
  next
    case (Some r)
    then show ?thesis
      using assms \<open>GetCachedTestsMap E (fqnOf E p) = None\<close>
      by (fastforce simp add: tracked_def StartTestFromCaller_miss startTracked_existing Let_def
            Printf_frame startedTest_WithContext less_Suc_eq)
  qed
next
  case (Some b)
  then show ?thesis
    using assms(1)
    by (cases "test_ctx (cachedTest t opts)")
       (fastforce simp add: tracked_def StartTestFromCaller_hit startCached_unfold Let_def
          SkipAndFinishTest_def Print_def Printf_def updHost_def less_Suc_eq)+
qed

lemma tracked_end: "tracked w \<Longrightarrow> tracked (fst (end' E test fr w))"
proof (cases test)
  case None
  assume "tracked w"
  then show ?thesis by (simp add: None end'_def)
next
  case (Some r)
  assume t: "tracked w"
  show ?thesis
  proof (cases "test_span (heap w r)")
    case None
    then show ?thesis using t by (simp add: Some end_nil_span)
  next
    case (Some s)
    then show ?thesis
      using t
      by (auto simp add: tracked_def \<open>test = Some r\<close> end_testMap end_frame split: if_splits)
  qed
qed

lemma tracked_mutexOp: "tracked (mutexOp ev w) = tracked w"
  by (simp add: tracked_def mutexOp_frame)

lemma tracked_End: "tracked w \<Longrightarrow> tracked (fst (End E r w))"
  using tracked_end [of "mutexOp (RLock autoInstrumentedTestsMutex) w" E "Some r" Direct]
  by (auto simp add: End_def Let_def case_prod_beta tracked_mutexOp split: option.splits)

lemma tracked_GetTest: "tracked w \<Longrightarrow> tracked (fst (GetTest t w))"
  by (fastforce simp add: tracked_def GetTest_def Let_def mutexOp_def less_Suc_eq split: option.splits)

lemma tracked_SetTestCode: "tracked w \<Longrightarrow> tracked (SetTestCode E r p w)"
  by (fastforce simp add: tracked_def SetTestCode_def Let_def case_prod_beta SetTag_def updSpan_def
        updTest_def split: option.splits)

lemma tracked_live:
  "tracked w \<Longrightarrow> set keys = dom (testMap w) \<Longrightarrow>
   \<forall>k\<in>set keys. \<exists>r s. testMap w k = Some r \<and> test_t (heap w r) = k
                         \<and> test_span (heap w r) = Some s"
  by (fastforce simp: tracked_def dom_def)

section \<open>The host test's Fail\<close>

lemma failedMore_refl: "failedMore hs hs"
  by (simp add: failedMore_def)

lemma failedMore_trans: "failedMore a b \<Longrightarrow> failedMore b c \<Longrightarrow> failedMore a c"
  unfolding failedMore_def
proof (intro allI)
  fix k
  assume ab: "\<forall>k. b k = a k \<or> b k = (a k)\<lparr>T_failed := True\<rparr>"
    and bc: "\<forall>k. c k = b k \<or> c k = (b k)\<lparr>T_failed := True\<rparr>"
  from ab have "b k = a k \<or> b k = (a k)\<lparr>T_failed := True\<rparr>" by blast
  moreover from bc have "c k = b k \<or> c k = (b k)\<lparr>T_failed := True\<rparr>" by blast
  ultimately show "c k = a k \<or> c k = (a k)\<lparr>T_failed := True\<rparr>" by auto
qed

lemma failedMore_upd: "failedMore hs (hs(t := (hs t)\<lparr>T_failed := True\<rparr>))"
  by (simp add: failedMore_def)

lemma failedMore_fields:
  assumes "failedMore hs hs'"
  shows "T_done (hs' k) = T_done (hs k)" "T_parent (hs' k) = T_parent (hs k)"
    "T_name (hs' k) = T_name (hs k)" "T_skipped (hs' k) = T_skipped (hs k)"
    "T_isParallel (hs' k) = T_isParallel (hs k)" "T_start (hs' k) = T_start (hs k)"
    "T_finished (hs' k) = T_finished (hs k)"
    "T_failed (hs k) \<Longrightarrow> T_failed (hs' k)"
  using assms [unfolded failedMore_def, rule_format, of k] by auto

lemma completed_failedMore:
  "failedMore hs hs' \<Longrightarrow> completed hs' t = completed hs t"
proof (induction hs t rule: completed.induct)
  case (1 hs t)
  note fm = failedMore_fields [OF 1(2)]
  show ?case
  proof (cases "T_parent (hs t)")
    case None
    then show ?thesis
      by (subst (1 2) completed.simps) (simp add: fm)
  next
    case (Some p)
    show ?thesis
    proof (cases "p < t")
      case True
      from 1(1) [OF Some True 1(2)] show ?thesis
        by (subst (1 2) completed.simps) (simp add: fm Some True)
    next
      case False
      then show ?thesis
        by (subst (1 2) completed.simps) (simp add: fm Some)
    qed
  qed
qed

lemma Fail_root:
  assumes "T_parent (hosts w t) = None \<or> (\<exists>p. T_parent (hosts w t) = Some p \<and> \<not> p < t)"
  shows "Fail t w =
     (if T_done (hosts w t)
      then (w, Panic (''Fail in goroutine after '' @ T_name (hosts w t) @ '' has completed''))
      else (updHost t (\<lambda>h. h\<lparr>T_failed := True\<rparr>) w, Return ()))"
  using assms by (subst Fail.simps) (auto simp add: obind_def)

lemma Fail_child:
  assumes "T_parent (hosts w t) = Some p" and "p < t"
  shows "Fail t w =
     (case snd (Fail p w) of
        Return _ \<Rightarrow>
          if T_done (hosts (fst (Fail p w)) t)
          then (fst (Fail p w),
                Panic (''Fail in goroutine after '' @ T_name (hosts (fst (Fail p w)) t)
                         @ '' has completed''))
          else (updHost t (\<lambda>h. h\<lparr>T_failed := True\<rparr>) (fst (Fail p w)), Return ())
      | Panic v \<Rightarrow> (fst (Fail p w), Panic v)
      | Goexit \<Rightarrow> (fst (Fail p w), Goexit))"
  using assms by (subst Fail.simps) (simp add: obind_alt)

text \<open>
  When the handles are numbered in creation order, \<^verbatim>\<open>Fail\<close> is the method as the library has
  it: the parent first, whenever there is one.
\<close>

lemma Fail_creationOrdered:
  assumes "creationOrdered (hosts w)"
  shows "Fail t w =
     obind (case T_parent (hosts w t) of Some p \<Rightarrow> Fail p w | None \<Rightarrow> (w, Return ()))
       (\<lambda>_ w1.
          if T_done (hosts w1 t)
          then (w1, Panic (''Fail in goroutine after '' @ T_name (hosts w1 t) @ '' has completed''))
          else (updHost t (\<lambda>h. h\<lparr>T_failed := True\<rparr>) w1, Return ()))"
proof (cases "T_parent (hosts w t)")
  case None
  then show ?thesis by (subst Fail.simps) simp
next
  case (Some p)
  then have "p < t" using assms by (simp add: creationOrdered_def)
  then show ?thesis by (subst Fail.simps) (simp add: Some)
qed

text \<open>
  \<^verbatim>\<open>Fail\<close> changes the host tests only, and of these the failed flags only. It returns on
  the host tests that are running and panics on the others; when it returns, the test is
  marked failed.
\<close>

lemma Fail_effect:
  "fst (Fail t w) = w\<lparr>hosts := hosts (fst (Fail t w))\<rparr>
   \<and> failedMore (hosts w) (hosts (fst (Fail t w)))
   \<and> (snd (Fail t w) = Return () \<or> (\<exists>v. snd (Fail t w) = Panic v))
   \<and> (snd (Fail t w) = Return () \<longleftrightarrow> \<not> completed (hosts w) t)
   \<and> (snd (Fail t w) = Return () \<longrightarrow> T_failed (hosts (fst (Fail t w)) t))"
proof (induction t w rule: Fail.induct)
  case (1 t w)
  show ?case
  proof (cases "T_parent (hosts w t) = None \<or> (\<exists>p. T_parent (hosts w t) = Some p \<and> \<not> p < t)")
    case True
    have c: "completed (hosts w) t = T_done (hosts w t)"
      using True by (subst completed.simps) auto
    show ?thesis
      by (simp add: Fail_root [OF True] c updHost_def failedMore_refl failedMore_upd)
  next
    case False
    then obtain p where p: "T_parent (hosts w t) = Some p" "p < t" by auto
    note ih = 1 [OF p]
    let ?w1 = "fst (Fail p w)"
    have fm: "failedMore (hosts w) (hosts ?w1)" using ih by blast
    have w1: "?w1 = w\<lparr>hosts := hosts ?w1\<rparr>" using ih by blast
    have c: "completed (hosts w) t = (completed (hosts w) p \<or> T_done (hosts w t))"
      by (subst completed.simps) (simp add: p)
    have d: "T_done (hosts ?w1 t) = T_done (hosts w t)"
      by (rule failedMore_fields(1) [OF fm])
    show ?thesis
    proof (cases "snd (Fail p w)")
      case (Return u)
      then have np: "\<not> completed (hosts w) p" using ih by simp
      let ?w2 = "updHost t (\<lambda>h. h\<lparr>T_failed := True\<rparr>) ?w1"
      have h2: "hosts ?w2 = (hosts ?w1)(t := (hosts ?w1 t)\<lparr>T_failed := True\<rparr>)"
        by (simp add: updHost_def)
      have fm2: "failedMore (hosts w) (hosts ?w2)"
        unfolding h2 by (rule failedMore_trans [OF fm failedMore_upd])
      have w2: "?w2 = w\<lparr>hosts := hosts ?w2\<rparr>"
        unfolding h2
        using arg_cong [OF w1, of "\<lambda>x. x\<lparr>hosts := (hosts ?w1)(t := (hosts ?w1 t)\<lparr>T_failed := True\<rparr>)\<rparr>"]
        by (simp add: updHost_def)
      have f2: "T_failed (hosts ?w2 t)" by (simp add: h2)
      show ?thesis
      proof (cases "T_done (hosts w t)")
        case True
        have eqs: "fst (Fail t w) = ?w1"
          "snd (Fail t w) = Panic (''Fail in goroutine after '' @ T_name (hosts ?w1 t)
                                     @ '' has completed'')"
          by (simp_all add: Fail_child [OF p] Return d True)
        show ?thesis
          unfolding eqs
          apply (intro conjI)
              apply (rule w1)
             apply (rule fm)
            apply simp
           apply (simp add: c True)
          apply simp
          done
      next
        case False
        have eqs: "fst (Fail t w) = ?w2" "snd (Fail t w) = Return ()"
          by (simp_all add: Fail_child [OF p] Return d False)
        show ?thesis
          unfolding eqs
          apply (intro conjI)
              apply (rule w2)
             apply (rule fm2)
            apply simp
           apply (simp add: c np False)
          apply (simp add: f2)
          done
      qed
    next
      case (Panic v)
      then have np: "completed (hosts w) p" using ih by auto
      have eqs: "fst (Fail t w) = ?w1" "snd (Fail t w) = Panic v"
        by (simp_all add: Fail_child [OF p] Panic)
      show ?thesis
        unfolding eqs
        apply (intro conjI)
            apply (rule w1)
           apply (rule fm)
          apply simp
         apply (simp add: c np)
        apply simp
        done
    next
      case Goexit
      then show ?thesis using ih by simp
    qed
  qed
qed

lemma Fail_frame:
  "heap (fst (Fail t w)) = heap w" "nextRef (fst (Fail t w)) = nextRef w"
  "testMap (fst (Fail t w)) = testMap w"
  "autoInstrumentedTests (fst (Fail t w)) = autoInstrumentedTests w"
  "spans (fst (Fail t w)) = spans w" "nextSpan (fst (Fail t w)) = nextSpan w"
  "pendingLogs (fst (Fail t w)) = pendingLogs w" "stdout (fst (Fail t w)) = stdout w"
  "counters (fst (Fail t w)) = counters w" "logger (fst (Fail t w)) = logger w"
  "lockLog (fst (Fail t w)) = lockLog w"
proof -
  note e = Fail_effect [of t w, THEN conjunct1]
  show "heap (fst (Fail t w)) = heap w" using arg_cong [OF e, of heap] by simp
  show "nextRef (fst (Fail t w)) = nextRef w" using arg_cong [OF e, of nextRef] by simp
  show "testMap (fst (Fail t w)) = testMap w" using arg_cong [OF e, of testMap] by simp
  show "autoInstrumentedTests (fst (Fail t w)) = autoInstrumentedTests w"
    using arg_cong [OF e, of autoInstrumentedTests] by simp
  show "spans (fst (Fail t w)) = spans w" using arg_cong [OF e, of spans] by simp
  show "nextSpan (fst (Fail t w)) = nextSpan w" using arg_cong [OF e, of nextSpan] by simp
  show "pendingLogs (fst (Fail t w)) = pendingLogs w" using arg_cong [OF e, of pendingLogs] by simp
  show "stdout (fst (Fail t w)) = stdout w" using arg_cong [OF e, of stdout] by simp
  show "counters (fst (Fail t w)) = counters w" using arg_cong [OF e, of counters] by simp
  show "logger (fst (Fail t w)) = logger w" using arg_cong [OF e, of logger] by simp
  show "lockLog (fst (Fail t w)) = lockLog w" using arg_cong [OF e, of lockLog] by simp
qed

lemma Fail_hosts: "failedMore (hosts w) (hosts (fst (Fail t w)))"
  using Fail_effect [of t w] by blast

lemma Fail_returns:
  "\<not> completed (hosts w) t \<Longrightarrow> snd (Fail t w) = Return ()"
  "\<not> completed (hosts w) t \<Longrightarrow> T_failed (hosts (fst (Fail t w)) t)"
  using Fail_effect [of t w] by blast+

lemma Fail_panics: "completed (hosts w) t \<Longrightarrow> \<exists>v. snd (Fail t w) = Panic v"
  using Fail_effect [of t w] by blast

lemma not_completed_all: "\<forall>k. \<not> T_done (hs k) \<Longrightarrow> \<not> completed hs t"
proof (induction hs t rule: completed.induct)
  case (1 hs t)
  show ?case
  proof (cases "T_parent (hs t)")
    case None
    then show ?thesis using 1(2) by (subst completed.simps) simp
  next
    case (Some p)
    show ?thesis
    proof (cases "p < t")
      case True
      from 1(1) [OF Some True 1(2)] show ?thesis
        using 1(2) by (subst completed.simps) (simp add: Some True)
    next
      case False
      then show ?thesis using 1(2) by (subst completed.simps) (simp add: Some)
    qed
  qed
qed

text \<open>In the example states no host test has completed, but for test 0 in the last one.\<close>

lemma W0_running: "\<not> completed (hosts W0) t"
  by (rule not_completed_all) (simp add: W0_def)

lemma Wleak_facts:
  "testMap Wleak 0 = Some 0" "test_t (heap Wleak 0) = 0" "test_span (heap Wleak 0) = Some 0"
  "T_done (hosts Wleak 0)" "T_parent (hosts Wleak 0) = None" "T_name (hosts Wleak 0) = ''Test''"
  "T_failed (hosts Wleak 0) = False"
  "spans Wleak = spans W1" "dom (testMap Wleak) = {0}"
  by (auto simp add: Wleak_def updHost_def W1_eq W0_def)


section \<open>The panic sweep\<close>

lemma sweepPre_frame:
  "heap (sweepPre e n v s w) = heap w"
  "nextRef (sweepPre e n v s w) = nextRef w"
  "nextSpan (sweepPre e n v s w) = nextSpan w"
  "testMap (sweepPre e n v s w) = testMap w"
  "autoInstrumentedTests (sweepPre e n v s w) = (autoInstrumentedTests w)(test_t (heap w v) := None)"
  "failedMore (hosts w) (hosts (sweepPre e n v s w))"
  "lockLog (sweepPre e n v s w) = lockLog w"
  "pendingLogs (sweepPre e n v s w) = pendingLogs w"
  "s' \<noteq> s \<Longrightarrow> spans (sweepPre e n v s w) s' = spans w s'"
  "sp_events (spans (sweepPre e n v s w) s) = sp_events (spans w s) @ [(e, n)]"
  "sp_finishes (spans (sweepPre e n v s w) s) = sp_finishes (spans w s)"
  "sp_tags (spans (sweepPre e n v s w) s) = sp_tags (spans w s)"
  "\<not> completed (hosts w) (test_t (heap w v)) \<Longrightarrow>
     T_failed (hosts (sweepPre e n v s w) (test_t (heap w v)))"
  using Fail_hosts [of "w\<lparr>autoInstrumentedTests := (autoInstrumentedTests w)(test_t (heap w v) := None)\<rparr>"
                       "test_t (heap w v)"]
        Fail_returns(2) [of "w\<lparr>autoInstrumentedTests := (autoInstrumentedTests w)(test_t (heap w v) := None)\<rparr>"
                       "test_t (heap w v)"]
  by (simp_all add: sweepPre_def updSpan_def Fail_frame)

lemma sweepOne_eq:
  "test_span (heap w v) = Some s \<Longrightarrow>
   sweepOne E e skip v w = fst (end' E (Some v) Direct (sweepPre e (1 + skip) v s w))"
  by (simp add: sweepOne_def sweepPre_def Let_def WriteExceptionEvent_def Fail_frame)

lemma panicLoop_Cons_span:
  assumes "test_span (heap w v) = Some s" and "\<not> completed (hosts w) (test_t (heap w v))"
  shows "panicLoop E e skip (v # vs) w = panicLoop E e skip vs (sweepOne E e skip v w)"
proof -
  let ?p = "sweepPre e (1 + skip) v s w"
  let ?w1 = "w\<lparr>autoInstrumentedTests := (autoInstrumentedTests w)(test_t (heap w v) := None)\<rparr>"
  have sp: "test_span (heap ?p v) = Some s"
    using assms by (simp add: sweepPre_frame)
  obtain w2 where w2: "Fail (test_t (heap w v)) ?w1 = (w2, Return ())"
    using Fail_returns(1) [of ?w1 "test_t (heap w v)"] assms(2)
    by (cases "Fail (test_t (heap w v)) ?w1") simp
  have h2: "heap w2 = heap w"
    using Fail_frame(1) [of "test_t (heap w v)" ?w1] by (simp add: w2)
  have p: "?p = updSpan s (\<lambda>x. x\<lparr>sp_events := sp_events x @ [(e, 1 + skip)]\<rparr>) w2"
    by (simp add: sweepPre_def w2)
  obtain w4 where w4: "end' E (Some v) Direct ?p = (w4, Return ())"
    using end_outcome [OF sp, of E Direct]
    by (cases "end' E (Some v) Direct ?p") simp
  have "panicLoop E e skip (v # vs) w = panicLoop E e skip vs w4"
    using assms(1) w4
    by (simp add: Let_def w2 obind_def h2 WriteExceptionEvent_def p)
  then show ?thesis
    by (simp add: sweepOne_eq [OF assms(1)] w4 del: panicLoop.simps)
qed

lemma panicLoop_Cons_completed:
  assumes "completed (hosts w) (test_t (heap w v))"
  shows "panicLoop E e skip (v # vs) w =
           Fail (test_t (heap w v))
             (w\<lparr>autoInstrumentedTests := (autoInstrumentedTests w)(test_t (heap w v) := None)\<rparr>)
         \<and> (\<exists>x. snd (panicLoop E e skip (v # vs) w) = Panic x)"
proof -
  let ?w1 = "w\<lparr>autoInstrumentedTests := (autoInstrumentedTests w)(test_t (heap w v) := None)\<rparr>"
  obtain x where x: "snd (Fail (test_t (heap w v)) ?w1) = Panic x"
    using Fail_panics [of ?w1 "test_t (heap w v)"] assms by auto
  have "panicLoop E e skip (v # vs) w = Fail (test_t (heap w v)) ?w1"
    using x by (simp add: Let_def obind_alt prod_eq_iff)
  then show ?thesis using x by simp
qed

lemma sweepOne_frame:
  assumes "test_span (heap w v) = Some s"
  shows "heap (sweepOne E e skip v w) = heap w"
    and "testMap (sweepOne E e skip v w) = (testMap w)(test_t (heap w v) := None)"
    and "autoInstrumentedTests (sweepOne E e skip v w)
           = (autoInstrumentedTests w)(test_t (heap w v) := None)"
    and "failedMore (hosts w) (hosts (sweepOne E e skip v w))"
    and "lockLog (sweepOne E e skip v w) = lockLog w @ [Lock testMapMutex, Unlock testMapMutex]"
    and "s' \<noteq> s \<Longrightarrow> spans (sweepOne E e skip v w) s' = spans w s'"
    and "sp_events (spans (sweepOne E e skip v w) s) = sp_events (spans w s) @ [(e, 1 + skip)]"
    and "sp_finishes (spans (sweepOne E e skip v w) s)
           = sp_finishes (spans w s)
               @ [\<lparr>FinishTime = Some (Now E), LogRecords = pendingLogs w\<rparr>]"
    and "\<not> completed (hosts w) (test_t (heap w v)) \<Longrightarrow>
         tagValue (spans (sweepOne E e skip v w) s) (Key ''test.status'')
           = Some (StatusVal TestStatus_FAIL)"
    and "\<not> completed (hosts w) (test_t (heap w v)) \<Longrightarrow>
         statusTags (spans (sweepOne E e skip v w) s)
           = statusTags (spans w s) @ [(Key ''test.status'', StatusVal TestStatus_FAIL)]"
    and "\<not> completed (hosts w) (test_t (heap w v)) \<Longrightarrow>
         T_failed (hosts (sweepOne E e skip v w) (test_t (heap w v)))"
    and "nextRef (sweepOne E e skip v w) = nextRef w"
    and "nextSpan (sweepOne E e skip v w) = nextSpan w"
    and "pendingLogs (sweepOne E e skip v w) = pendingLogs w"
proof -
  let ?p = "sweepPre e (1 + skip) v s w"
  have sp: "test_span (heap ?p v) = Some s"
    using assms by (simp add: sweepPre_frame)
  note eq = sweepOne_eq [OF assms]
  have stp: "statusTags (spans ?p s) = statusTags (spans w s)"
    by (simp add: statusTags_def sweepPre_frame)
  show "heap (sweepOne E e skip v w) = heap w"
    by (simp add: eq end_frame [OF sp] sweepPre_frame)
  show "testMap (sweepOne E e skip v w) = (testMap w)(test_t (heap w v) := None)"
    by (simp add: eq end_testMap [OF sp] sweepPre_frame)
  show "autoInstrumentedTests (sweepOne E e skip v w)
           = (autoInstrumentedTests w)(test_t (heap w v) := None)"
    by (simp add: eq end_frame [OF sp] sweepPre_frame)
  show "failedMore (hosts w) (hosts (sweepOne E e skip v w))"
    by (simp add: eq end_frame [OF sp] sweepPre_frame)
  show "lockLog (sweepOne E e skip v w) = lockLog w @ [Lock testMapMutex, Unlock testMapMutex]"
    by (simp add: eq end_lockLog [OF sp] sweepPre_frame)
  show "s' \<noteq> s \<Longrightarrow> spans (sweepOne E e skip v w) s' = spans w s'"
    by (simp add: eq end_other_spans [OF sp] sweepPre_frame)
  show "sp_events (spans (sweepOne E e skip v w) s) = sp_events (spans w s) @ [(e, 1 + skip)]"
    by (simp add: eq end_events [OF sp] sweepPre_frame)
  show "sp_finishes (spans (sweepOne E e skip v w) s)
           = sp_finishes (spans w s)
               @ [\<lparr>FinishTime = Some (Now E), LogRecords = pendingLogs w\<rparr>]"
    by (simp add: eq end_finishes [OF sp] sweepPre_frame)
  show "\<not> completed (hosts w) (test_t (heap w v)) \<Longrightarrow>
         tagValue (spans (sweepOne E e skip v w) s) (Key ''test.status'')
           = Some (StatusVal TestStatus_FAIL)"
    by (simp add: eq tagValue_end [OF sp] sweepPre_frame)
  show "\<not> completed (hosts w) (test_t (heap w v)) \<Longrightarrow>
         statusTags (spans (sweepOne E e skip v w) s)
           = statusTags (spans w s) @ [(Key ''test.status'', StatusVal TestStatus_FAIL)]"
    by (simp add: eq end_statusTags [OF sp] sweepPre_frame stp)
  show "\<not> completed (hosts w) (test_t (heap w v)) \<Longrightarrow>
         T_failed (hosts (sweepOne E e skip v w) (test_t (heap w v)))"
    by (simp add: eq end_frame [OF sp] sweepPre_frame)
  show "nextRef (sweepOne E e skip v w) = nextRef w"
    by (simp add: eq end_frame [OF sp] sweepPre_frame)
  show "nextSpan (sweepOne E e skip v w) = nextSpan w"
    by (simp add: eq end_frame [OF sp] sweepPre_frame)
  show "pendingLogs (sweepOne E e skip v w) = pendingLogs w"
    by (simp add: eq end_frame [OF sp] sweepPre_frame)
qed

lemma sweepOne_swept:
  assumes "test_span (heap w v) = Some s" and "\<not> completed (hosts w) (test_t (heap w v))"
  shows "sweptSpan e (1 + skip) (spans (sweepOne E e skip v w) s)"
  by (simp add: sweptSpan_def sweepOne_frame(7,8) [OF assms(1)] sweepOne_frame(9) [OF assms])

lemma sweepOne_swept_mono:
  assumes "test_span (heap w v) = Some s" and "\<not> completed (hosts w) (test_t (heap w v))"
    and "sweptSpan e (1 + skip) (spans w s')"
  shows "sweptSpan e (1 + skip) (spans (sweepOne E e skip v w) s')"
proof (cases "s' = s")
  case True
  then show ?thesis using sweepOne_swept [OF assms(1,2)] by simp
next
  case False
  then show ?thesis using assms(3) by (simp add: sweepOne_frame(6) [OF assms(1)])
qed

lemma panicLoop_effect:
  assumes "\<forall>v\<in>set vs. test_span (heap w v) \<noteq> None
                       \<and> \<not> completed (hosts w) (test_t (heap w v))"
  shows "snd (panicLoop E e skip vs w) = Return ()
     \<and> heap (fst (panicLoop E e skip vs w)) = heap w
     \<and> testMap (fst (panicLoop E e skip vs w))
         = (\<lambda>k. if k \<in> sweptKeys w vs then None else testMap w k)
     \<and> autoInstrumentedTests (fst (panicLoop E e skip vs w))
         = (\<lambda>k. if k \<in> sweptKeys w vs then None else autoInstrumentedTests w k)
     \<and> failedMore (hosts w) (hosts (fst (panicLoop E e skip vs w)))
     \<and> (\<forall>k\<in>sweptKeys w vs. T_failed (hosts (fst (panicLoop E e skip vs w)) k))
     \<and> (\<forall>s. sweptSpan e (1 + skip) (spans w s)
              \<longrightarrow> sweptSpan e (1 + skip) (spans (fst (panicLoop E e skip vs w)) s))
     \<and> (\<forall>v\<in>set vs. \<forall>s. test_span (heap w v) = Some s
              \<longrightarrow> sweptSpan e (1 + skip) (spans (fst (panicLoop E e skip vs w)) s))"
  using assms
proof (induction vs arbitrary: w)
  case Nil
  then show ?case by (simp add: sweptKeys_def failedMore_refl)
next
  case (Cons v vs)
  from Cons.prems obtain s where s: "test_span (heap w v) = Some s" by auto
  from Cons.prems have nc: "\<not> completed (hosts w) (test_t (heap w v))" by simp
  let ?w1 = "sweepOne E e skip v w"
  let ?w' = "fst (panicLoop E e skip vs ?w1)"
  note fr = sweepOne_frame [OF s, where E = E and e = e and skip = skip]
  have hp: "heap ?w1 = heap w" by (rule fr(1))
  have fm: "failedMore (hosts w) (hosts ?w1)" by (rule fr(4))
  have pre: "\<forall>v\<in>set vs. test_span (heap ?w1 v) \<noteq> None
                       \<and> \<not> completed (hosts ?w1) (test_t (heap ?w1 v))"
    using Cons.prems by (simp add: hp completed_failedMore [OF fm])
  note ih = Cons.IH [OF pre]
  have unf: "panicLoop E e skip (v # vs) w = panicLoop E e skip vs ?w1"
    by (rule panicLoop_Cons_span [OF s nc])
  have keys: "sweptKeys w (v # vs) = insert (test_t (heap w v)) (sweptKeys ?w1 vs)"
    by (simp add: sweptKeys_def hp)
  have c1: "snd (panicLoop E e skip (v # vs) w) = Return ()"
    using ih by (simp add: unf del: panicLoop.simps)
  have c2: "heap (fst (panicLoop E e skip (v # vs) w)) = heap w"
    using ih by (simp add: unf hp del: panicLoop.simps)
  have c3: "testMap (fst (panicLoop E e skip (v # vs) w))
         = (\<lambda>k. if k \<in> sweptKeys w (v # vs) then None else testMap w k)"
    using ih by (auto simp add: unf keys fr(2) simp del: panicLoop.simps)
  have c4: "autoInstrumentedTests (fst (panicLoop E e skip (v # vs) w))
         = (\<lambda>k. if k \<in> sweptKeys w (v # vs) then None else autoInstrumentedTests w k)"
    using ih by (auto simp add: unf keys fr(3) simp del: panicLoop.simps)
  have fm': "failedMore (hosts ?w1) (hosts ?w')" using ih by blast
  have c5a: "failedMore (hosts w) (hosts (fst (panicLoop E e skip (v # vs) w)))"
    using failedMore_trans [OF fm fm'] by (simp add: unf del: panicLoop.simps)
  have "T_failed (hosts ?w' (test_t (heap w v)))"
    by (rule failedMore_fields(8) [OF fm' fr(11) [OF nc]])
  then have c5: "\<forall>k\<in>sweptKeys w (v # vs). T_failed (hosts (fst (panicLoop E e skip (v # vs) w)) k)"
    using ih by (auto simp add: unf keys simp del: panicLoop.simps)
  have mono: "sweptSpan e (1 + skip) (spans ?w1 s') \<Longrightarrow> sweptSpan e (1 + skip) (spans ?w' s')" for s'
    using ih by blast
  have c6: "\<forall>s'. sweptSpan e (1 + skip) (spans w s')
              \<longrightarrow> sweptSpan e (1 + skip) (spans (fst (panicLoop E e skip (v # vs) w)) s')"
    using mono sweepOne_swept_mono [OF s nc] by (simp add: unf del: panicLoop.simps)
  have own: "sweptSpan e (1 + skip) (spans ?w' s)"
    by (rule mono [OF sweepOne_swept [OF s nc]])
  have rest: "\<forall>v'\<in>set vs. \<forall>s'. test_span (heap w v') = Some s'
              \<longrightarrow> sweptSpan e (1 + skip) (spans ?w' s')"
    using ih by (simp add: hp)
  have c7: "\<forall>v'\<in>set (v # vs). \<forall>s'. test_span (heap w v') = Some s'
              \<longrightarrow> sweptSpan e (1 + skip) (spans (fst (panicLoop E e skip (v # vs) w)) s')"
    using own rest s by (auto simp add: unf simp del: panicLoop.simps)
  from c1 c2 c3 c4 c5a c5 c6 c7 show ?case by blast
qed

lemma map_filter_total:
  "\<forall>k\<in>set ks. m k \<noteq> None \<Longrightarrow> List.map_filter m ks = map (\<lambda>k. the (m k)) ks"
  by (induction ks) (auto simp: List.map_filter_simps)

text \<open>
  C7, as amended. Let every unit of the live set be stored under its own handle and have a
  span, let \<open>keys\<close> list the handles of the live set in the order the loop meets them,
  whatever that order is, and let the host test of every live unit be running: neither it
  nor a test above it has completed. Handles are numbered in the order the host framework
  creates the tests. Then \<^verbatim>\<open>PanicAllRunningTests\<close> returns, the live set is
  empty afterwards, and for every unit that was live: its host test is failed, its handle
  is not in the auto-instrumented set, and its span carries the exception event of the
  cause with \<open>1 + skip\<close> frames to skip, has the status FAIL and is finished.
\<close>

theorem C7_panic_sweep:
  assumes "\<forall>k\<in>set keys. \<exists>r s. testMap w k = Some r \<and> test_t (heap w r) = k
                                \<and> test_span (heap w r) = Some s"
    and "dom (testMap w) = set keys"
    and "\<forall>k\<in>set keys. \<not> completed (hosts w) k"
    and "creationOrdered (hosts w)"
  shows "(case PanicAllRunningTests E keys e skip w of (w', res) \<Rightarrow>
      res = Return ()
      \<and> testMap w' = Map.empty
      \<and> (\<forall>k r s. testMap w k = Some r \<and> test_span (heap w r) = Some s \<longrightarrow>
            T_failed (hosts w' k) \<and> autoInstrumentedTests w' k = None
            \<and> (e, 1 + skip) \<in> set (sp_events (spans w' s))
            \<and> tagValue (spans w' s) (Key ''test.status'') = Some (StatusVal TestStatus_FAIL)
            \<and> sp_finishes (spans w' s) \<noteq> []))"
proof -
  let ?w3 = "mutexOp (RUnlock testMapMutex) (mutexOp (RLock testMapMutex)
               (mutexOp (Lock autoInstrumentedTestsMutex) w))"
  let ?vs = "map (\<lambda>k. the (testMap w k)) keys"
  let ?w4 = "fst (panicLoop E e skip ?vs ?w3)"
  have tot: "\<forall>k\<in>set keys. testMap w k \<noteq> None"
    using assms(1) by auto
  have vs: "List.map_filter (testMap w) keys = ?vs"
    by (rule map_filter_total [OF tot])
  have unf: "PanicAllRunningTests E keys e skip w =
               (mutexOp (Unlock autoInstrumentedTestsMutex) ?w4,
                snd (panicLoop E e skip ?vs ?w3))"
    by (simp add: PanicAllRunningTests_def Let_def mutexOp_frame vs case_prod_beta)
  have pre: "\<forall>v\<in>set ?vs. test_span (heap ?w3 v) \<noteq> None
                         \<and> \<not> completed (hosts ?w3) (test_t (heap ?w3 v))"
    using assms(1,3) by (auto simp: mutexOp_frame)
  have keys: "sweptKeys ?w3 ?vs = set keys"
    using assms(1) by (force simp: sweptKeys_def mutexOp_frame image_iff)
  note eff = panicLoop_effect [OF pre, of E e skip, unfolded keys mutexOp_frame]
  have res: "snd (panicLoop E e skip ?vs ?w3) = Return ()"
    using eff by blast
  have tm: "testMap ?w4 = Map.empty"
  proof
    fix k
    have "testMap ?w4 k = (if k \<in> set keys then None else testMap w k)"
      using eff by simp
    then show "testMap ?w4 k = None"
      using assms(2) by (auto simp: domIff)
  qed
  have each: "T_failed (hosts ?w4 k) \<and> autoInstrumentedTests ?w4 k = None
            \<and> (e, 1 + skip) \<in> set (sp_events (spans ?w4 s))
            \<and> tagValue (spans ?w4 s) (Key ''test.status'') = Some (StatusVal TestStatus_FAIL)
            \<and> sp_finishes (spans ?w4 s) \<noteq> []"
    if h: "testMap w k = Some r" "test_span (heap w r) = Some s" for k r s
  proof -
    have kk: "k \<in> set keys" using h(1) assms(2) by auto
    then have rv: "r \<in> set ?vs" using h(1) by force
    have sw: "sweptSpan e (1 + skip) (spans ?w4 s)"
      using eff rv h(2) by blast
    have f: "T_failed (hosts ?w4 k)" using eff kk by blast
    have a: "autoInstrumentedTests ?w4 k = None" using eff kk by simp
    show ?thesis using sw f a by (simp add: sweptSpan_def)
  qed
  have all: "\<forall>k r s. testMap w k = Some r \<and> test_span (heap w r) = Some s \<longrightarrow>
            T_failed (hosts ?w4 k) \<and> autoInstrumentedTests ?w4 k = None
            \<and> (e, 1 + skip) \<in> set (sp_events (spans ?w4 s))
            \<and> tagValue (spans ?w4 s) (Key ''test.status'') = Some (StatusVal TestStatus_FAIL)
            \<and> sp_finishes (spans ?w4 s) \<noteq> []"
    using each by blast
  show ?thesis
    unfolding unf prod.case mutexOp_frame using res tm all by blast
qed


text \<open>The sweep over the two started tests of the example, test 1 first.\<close>

theorem C7_panic_sweep_witness:
  "testMap W2 0 = Some 0 \<and> test_t (heap W2 0) = 0 \<and> test_span (heap W2 0) = Some 0
   \<and> testMap W2 (Suc 0) = Some (Suc 0) \<and> test_t (heap W2 (Suc 0)) = Suc 0
   \<and> test_span (heap W2 (Suc 0)) = Some (Suc 0)
   \<and> dom (testMap W2) = set [Suc 0, 0]
   \<and> \<not> completed (hosts W2) 0 \<and> \<not> completed (hosts W2) (Suc 0)
   \<and> creationOrdered (hosts W2)
   \<and> snd (PanicAllRunningTests E0 [Suc 0, 0] ''crash'' 0 W2) = Return ()
   \<and> testMap (fst (PanicAllRunningTests E0 [Suc 0, 0] ''crash'' 0 W2)) = Map.empty
   \<and> T_failed (hosts (fst (PanicAllRunningTests E0 [Suc 0, 0] ''crash'' 0 W2)) 0)
   \<and> T_failed (hosts (fst (PanicAllRunningTests E0 [Suc 0, 0] ''crash'' 0 W2)) (Suc 0))
   \<and> (''crash'', 1) \<in> set (sp_events (spans (fst (PanicAllRunningTests E0 [Suc 0, 0] ''crash'' 0 W2)) 0))
   \<and> (''crash'', 1) \<in> set (sp_events (spans (fst (PanicAllRunningTests E0 [Suc 0, 0] ''crash'' 0 W2)) (Suc 0)))
   \<and> tagValue (spans (fst (PanicAllRunningTests E0 [Suc 0, 0] ''crash'' 0 W2)) 0)
        (Key ''test.status'') = Some (StatusVal TestStatus_FAIL)
   \<and> tagValue (spans (fst (PanicAllRunningTests E0 [Suc 0, 0] ''crash'' 0 W2)) (Suc 0))
        (Key ''test.status'') = Some (StatusVal TestStatus_FAIL)"
proof -
  have h1: "\<forall>k\<in>set [Suc 0, 0]. \<exists>r s. testMap W2 k = Some r \<and> test_t (heap W2 r) = k
                                \<and> test_span (heap W2 r) = Some s"
    by (simp add: W2_facts)
  have h2: "dom (testMap W2) = set [Suc 0, 0]"
    by (auto simp: W2_dom)
  have h3: "\<forall>k\<in>set [Suc 0, 0]. \<not> completed (hosts W2) k"
    by (simp add: W2_facts W0_running)
  have h4: "creationOrdered (hosts W2)"
    by (simp add: creationOrdered_def W2_facts W0_def)
  let ?w' = "fst (PanicAllRunningTests E0 [Suc 0, 0] ''crash'' 0 W2)"
  have t: "snd (PanicAllRunningTests E0 [Suc 0, 0] ''crash'' 0 W2) = Return ()
      \<and> testMap ?w' = Map.empty
      \<and> (\<forall>k r s. testMap W2 k = Some r \<and> test_span (heap W2 r) = Some s \<longrightarrow>
            T_failed (hosts ?w' k) \<and> autoInstrumentedTests ?w' k = None
            \<and> (''crash'', 1 + 0) \<in> set (sp_events (spans ?w' s))
            \<and> tagValue (spans ?w' s) (Key ''test.status'') = Some (StatusVal TestStatus_FAIL)
            \<and> sp_finishes (spans ?w' s) \<noteq> [])"
    using C7_panic_sweep [OF h1 h2 h3 h4, where E = E0 and e = "''crash''" and skip = 0,
        unfolded case_prod_beta] .
  have a: "testMap W2 0 = Some 0 \<and> test_span (heap W2 0) = Some 0"
    and b: "testMap W2 (Suc 0) = Some (Suc 0) \<and> test_span (heap W2 (Suc 0)) = Some (Suc 0)"
    by (simp_all add: W2_facts)
  from t a b have "T_failed (hosts ?w' 0) \<and> T_failed (hosts ?w' (Suc 0))
      \<and> (''crash'', 1 + 0) \<in> set (sp_events (spans ?w' 0))
      \<and> (''crash'', 1 + 0) \<in> set (sp_events (spans ?w' (Suc 0)))
      \<and> tagValue (spans ?w' 0) (Key ''test.status'') = Some (StatusVal TestStatus_FAIL)
      \<and> tagValue (spans ?w' (Suc 0)) (Key ''test.status'') = Some (StatusVal TestStatus_FAIL)"
    by blast
  with t h2 h4 show ?thesis by (simp add: W2_facts W0_running)
qed


text \<open>
  The claim as written speaks of every unit in the live set. In the state in which test 0
  has completed without a call of \<^verbatim>\<open>End\<close>, its unit is in the live set and the sweep
  panics in \<^verbatim>\<open>t.Fail\<close>: the unit stays in the live set, its host test is not marked
  failed, and its span gets no exception event, no status and no finish.
\<close>

theorem C7_panic_sweep_counterexample:
  "testMap Wleak 0 = Some 0 \<and> test_span (heap Wleak 0) = Some 0 \<and> dom (testMap Wleak) = set [0]
   \<and> snd (PanicAllRunningTests E0 [0] ''crash'' 0 Wleak)
       = Panic ''Fail in goroutine after Test has completed''
   \<and> testMap (fst (PanicAllRunningTests E0 [0] ''crash'' 0 Wleak)) 0 = Some 0
   \<and> \<not> T_failed (hosts (fst (PanicAllRunningTests E0 [0] ''crash'' 0 Wleak)) 0)
   \<and> sp_events (spans (fst (PanicAllRunningTests E0 [0] ''crash'' 0 Wleak)) 0) = []
   \<and> statusTags (spans (fst (PanicAllRunningTests E0 [0] ''crash'' 0 Wleak)) 0) = []
   \<and> sp_finishes (spans (fst (PanicAllRunningTests E0 [0] ''crash'' 0 Wleak)) 0) = []"
proof -
  let ?w3 = "mutexOp (RUnlock testMapMutex) (mutexOp (RLock testMapMutex)
               (mutexOp (Lock autoInstrumentedTestsMutex) Wleak))"
  let ?w1 = "?w3\<lparr>autoInstrumentedTests := (autoInstrumentedTests Wleak)(0 := None)\<rparr>"
  have f: "Fail 0 ?w1 = (?w1, Panic ''Fail in goroutine after Test has completed'')"
    by (subst Fail_root) (simp_all add: mutexOp_frame Wleak_facts)
  have l: "panicLoop E0 ''crash'' 0 [0] ?w3
             = (?w1, Panic ''Fail in goroutine after Test has completed'')"
    by (simp add: Let_def mutexOp_frame Wleak_facts f obind_def)
  have p: "PanicAllRunningTests E0 [0] ''crash'' 0 Wleak
             = (mutexOp (Unlock autoInstrumentedTestsMutex) ?w1,
                Panic ''Fail in goroutine after Test has completed'')"
    by (simp add: PanicAllRunningTests_def Let_def mutexOp_frame Wleak_facts
          List.map_filter_simps l del: panicLoop.simps)
  have st: "statusTags (spans W1 0) = []"
    by (simp add: statusTags_def W1_facts testTags_def)
  show ?thesis
    unfolding p
    by (simp add: mutexOp_frame Wleak_facts W1_facts st)
qed

section \<open>A sub-test is finalised by the deferred end\<close>

text \<open>
  What \<^verbatim>\<open>end\<close> adds to a span \<open>s\<close>: one status tag and one finish when \<open>s\<close> is the span of
  the unit, nothing otherwise.
\<close>

lemma end_adds:
  "length (statusTags (spans (fst (end' E (Some c) fr w)) s))
     = length (statusTags (spans w s)) + (if test_span (heap w c) = Some s then 1 else 0)"
  "length (sp_finishes (spans (fst (end' E (Some c) fr w)) s))
     = length (sp_finishes (spans w s)) + (if test_span (heap w c) = Some s then 1 else 0)"
proof -
  show "length (statusTags (spans (fst (end' E (Some c) fr w)) s))
     = length (statusTags (spans w s)) + (if test_span (heap w c) = Some s then 1 else 0)"
  proof (cases "test_span (heap w c)")
    case None
    then show ?thesis by (simp add: end_nil_span)
  next
    case (Some s2)
    show ?thesis
    proof (cases "s2 = s")
      case True
      with Some have a: "test_span (heap w c) = Some s" by simp
      show ?thesis by (simp add: a end_statusTags [OF a])
    next
      case False
      then show ?thesis by (simp add: Some end_other_spans [OF Some])
    qed
  qed
  show "length (sp_finishes (spans (fst (end' E (Some c) fr w)) s))
     = length (sp_finishes (spans w s)) + (if test_span (heap w c) = Some s then 1 else 0)"
  proof (cases "test_span (heap w c)")
    case None
    then show ?thesis by (simp add: end_nil_span)
  next
    case (Some s2)
    show ?thesis
    proof (cases "s2 = s")
      case True
      with Some have a: "test_span (heap w c) = Some s" by simp
      show ?thesis by (simp add: a end_finishes [OF a])
    next
      case False
      then show ?thesis by (simp add: Some end_other_spans [OF Some])
    qed
  qed
qed

text \<open>The state in which the body of sub-test 5 starts, and the sweep run in it.\<close>

lemma W1_fresh5: "testMap W1 5 = None"
  by (simp add: W1_eq W0_def)

lemma Wsub_facts:
  "testMap Wsub 5 = Some (Suc 0)" "testMap Wsub 0 = Some 0"
  "test_span (heap Wsub (Suc 0)) = Some (Suc 0)" "test_t (heap Wsub (Suc 0)) = 5"
  "test_span (heap Wsub 0) = Some 0" "test_t (heap Wsub 0) = 0"
  "hosts Wsub = hosts W0"
  "sp_finishes (spans Wsub (Suc 0)) = []" "statusTags (spans Wsub (Suc 0)) = []"
  "autoInstrumentedTests Wsub 5 = Some True"
proof -
  have m: "testMap (addAutoInstrumentedTest 5 W1) 5 = None"
    by (simp add: addAutoInstrumentedTest_frame W1_fresh5)
  note st = StartTestFromCaller_fresh [OF E0_miss m, where opts = "[]",
      unfolded addAutoInstrumentedTest_frame W1_facts, folded Wsub_def]
  show "testMap Wsub 5 = Some (Suc 0)" "testMap Wsub 0 = Some 0"
    by (simp_all add: st(2) W1_facts)
  show "test_span (heap Wsub (Suc 0)) = Some (Suc 0)"
    using st(3) by simp
  show "test_t (heap Wsub (Suc 0)) = 5"
    using StartTestFromCaller_fresh_t [OF E0_miss m]
    by (simp add: addAutoInstrumentedTest_frame W1_facts Wsub_def)
  show "test_span (heap Wsub 0) = Some 0" "test_t (heap Wsub 0) = 0"
    using st(4) [of 0] by (simp_all add: W1_facts)
  show "hosts Wsub = hosts W0" by (simp add: st(11))
  show "sp_finishes (spans Wsub (Suc 0)) = []" using st(5) by simp
  show "statusTags (spans Wsub (Suc 0)) = []" using st(6) by simp
  show "autoInstrumentedTests Wsub 5 = Some True" by (simp add: st(8))
qed

lemma sweep_Wsub:
  "snd (PanicAllRunningTests E0 [5, 0] ''crash'' 0 Wsub) = Return ()"
  "test_span (heap (fst (PanicAllRunningTests E0 [5, 0] ''crash'' 0 Wsub)) (Suc 0)) = Some (Suc 0)"
  "length (statusTags (spans (fst (PanicAllRunningTests E0 [5, 0] ''crash'' 0 Wsub)) (Suc 0))) = 1"
  "length (sp_finishes (spans (fst (PanicAllRunningTests E0 [5, 0] ''crash'' 0 Wsub)) (Suc 0))) = 1"
proof -
  let ?w3 = "mutexOp (RUnlock testMapMutex) (mutexOp (RLock testMapMutex)
               (mutexOp (Lock autoInstrumentedTestsMutex) Wsub))"
  let ?a = "sweepOne E0 ''crash'' 0 (Suc 0) ?w3"
  let ?b = "sweepOne E0 ''crash'' 0 0 ?a"
  have s1: "test_span (heap ?w3 (Suc 0)) = Some (Suc 0)"
    and t1: "test_t (heap ?w3 (Suc 0)) = 5"
    and h1: "hosts ?w3 = hosts W0"
    by (simp_all add: mutexOp_frame Wsub_facts)
  have n1: "\<not> completed (hosts ?w3) (test_t (heap ?w3 (Suc 0)))"
    by (simp add: h1 W0_running)
  note fa = sweepOne_frame [OF s1, where E = E0 and e = "''crash''" and skip = 0]
  have s0: "test_span (heap ?a 0) = Some 0" and t0: "test_t (heap ?a 0) = 0"
    by (simp_all add: fa(1) mutexOp_frame Wsub_facts)
  have n0: "\<not> completed (hosts ?a) (test_t (heap ?a 0))"
    using completed_failedMore [OF fa(4)] by (simp add: h1 W0_running)
  note fb = sweepOne_frame [OF s0, where E = E0 and e = "''crash''" and skip = 0]
  have l: "panicLoop E0 ''crash'' 0 [Suc 0, 0] ?w3 = (?b, Return ())"
    by (simp add: panicLoop_Cons_span [OF s1 n1] panicLoop_Cons_span [OF s0 n0]
          del: panicLoop.simps) simp
  have p: "PanicAllRunningTests E0 [5, 0] ''crash'' 0 Wsub
             = (mutexOp (Unlock autoInstrumentedTestsMutex) ?b, Return ())"
    by (simp add: PanicAllRunningTests_def Let_def mutexOp_frame Wsub_facts
          List.map_filter_simps l del: panicLoop.simps)
  show "snd (PanicAllRunningTests E0 [5, 0] ''crash'' 0 Wsub) = Return ()"
    by (simp add: p)
  show "test_span (heap (fst (PanicAllRunningTests E0 [5, 0] ''crash'' 0 Wsub)) (Suc 0)) = Some (Suc 0)"
    by (simp add: p mutexOp_frame fb(1) fa(1) Wsub_facts)
  have sb: "spans ?b (Suc 0) = spans ?a (Suc 0)"
    by (rule fb(6)) simp
  show "length (statusTags (spans (fst (PanicAllRunningTests E0 [5, 0] ''crash'' 0 Wsub)) (Suc 0))) = 1"
    by (simp add: p mutexOp_frame sb fa(10) [OF n1] Wsub_facts)
  show "length (sp_finishes (spans (fst (PanicAllRunningTests E0 [5, 0] ''crash'' 0 Wsub)) (Suc 0))) = 1"
    by (simp add: p mutexOp_frame sb fa(8) Wsub_facts)
qed


text \<open>
  C5, as amended. On a unit with a span, \<^verbatim>\<open>Run\<close> hands the host framework's \<^verbatim>\<open>t.Run\<close> the
  wrapper \<open>runChild\<close>. For a child handle that is not tracked and not cached, the wrapper
  first reaches a state in which the handle is in the auto-instrumented set and the child
  is a tracked unit with a fresh span that has no status tag and no finish; the body runs
  on that state, and the private \<^verbatim>\<open>end\<close> runs once, after the body. In any state in which
  the marker of the child's handle is set, \<^verbatim>\<open>End\<close> on the child only takes and releases
  its read lock. Whatever the body is, the deferred \<^verbatim>\<open>end\<close> adds one status tag and one
  finish to the child's span if the unit still has that span, and nothing otherwise. So
  for every body that leaves the child's struct and span as it found them, the wrapper
  ends as the body did, the child is out of the live set, and its span has exactly one
  status tag and one finish; the generic end-of-test hook is such a body.
\<close>

theorem C5_run_child_finalized_once:
  assumes "GetCachedTestsMap E (fqnOf E p) = None" and "testMap w childT = None"
  shows "(\<forall>tRun test name f w0. test_span (heap w0 test) \<noteq> None \<longrightarrow>
            Run E tRun p test name f w0
              = tRun (test_t (heap w0 test)) name (runChild E p f) w0)
     \<and> (let started = StartTestFromCaller E childT p [] (addAutoInstrumentedTest childT w);
              w1 = fst started; c = nextRef w; s = nextSpan w
          in snd started = Return c
     \<and> autoInstrumentedTests w1 childT = Some True
     \<and> testMap w1 childT = Some c \<and> test_t (heap w1 c) = childT
     \<and> test_span (heap w1 c) = Some s
     \<and> statusTags (spans w1 s) = [] \<and> sp_finishes (spans w1 s) = []
     \<and> (\<forall>f. runChild E p f childT w =
            (case f childT w1 of (w2, res) \<Rightarrow>
               (case end' E (Some c) (Deferred (case res of Panic v \<Rightarrow> Some v | _ \<Rightarrow> None)) w2
                of (w3, res') \<Rightarrow> (w3, case res' of Return _ \<Rightarrow> res | _ \<Rightarrow> res'))))
     \<and> (\<forall>w'. autoInstrumentedTests w' (test_t (heap w' c)) \<noteq> None \<longrightarrow>
            End E c w' = (mutexOp (RUnlock autoInstrumentedTestsMutex)
                            (mutexOp (RLock autoInstrumentedTestsMutex) w'), Return ()))
     \<and> (\<forall>f. case f childT w1 of (w2, res) \<Rightarrow>
            (case runChild E p f childT w of (w3, res3) \<Rightarrow>
               length (statusTags (spans w3 s))
                 = length (statusTags (spans w2 s))
                   + (if test_span (heap w2 c) = Some s then 1 else 0)
               \<and> length (sp_finishes (spans w3 s))
                 = length (sp_finishes (spans w2 s))
                   + (if test_span (heap w2 c) = Some s then 1 else 0)))
     \<and> (\<forall>f. heap (fst (f childT w1)) c = heap w1 c \<and> spans (fst (f childT w1)) s = spans w1 s
            \<longrightarrow> (case runChild E p f childT w of (w3, res3) \<Rightarrow>
                   res3 = snd (f childT w1) \<and> testMap w3 childT = None
                   \<and> length (statusTags (spans w3 s)) = 1
                   \<and> length (sp_finishes (spans w3 s)) = 1))
     \<and> heap (fst (endHook E childT w1)) c = heap w1 c
     \<and> spans (fst (endHook E childT w1)) s = spans w1 s)"
proof -
  let ?w0 = "addAutoInstrumentedTest childT w"
  let ?w1 = "fst (StartTestFromCaller E childT p [] ?w0)"
  let ?c = "nextRef w" and ?s = "nextSpan w"
  have m: "testMap ?w0 childT = None"
    using assms(2) by (simp add: addAutoInstrumentedTest_frame)
  note st = StartTestFromCaller_fresh [OF assms(1) m, where opts = "[]",
      unfolded addAutoInstrumentedTest_frame]
  have tt: "test_t (heap ?w1 ?c) = childT"
    using StartTestFromCaller_fresh_t [OF assms(1) m]
    by (simp add: addAutoInstrumentedTest_frame)
  have auto1: "autoInstrumentedTests ?w1 childT = Some True"
    by (simp add: st(8))
  have map1: "testMap ?w1 childT = Some ?c"
    by (simp add: st(2))
  have sp1: "test_span (heap ?w1 ?c) = Some ?s"
    by (simp add: st(3))
  have run: "runChild E p f childT w =
            (case f childT ?w1 of (w2, res) \<Rightarrow>
               (case end' E (Some ?c) (Deferred (case res of Panic v \<Rightarrow> Some v | _ \<Rightarrow> None)) w2
                of (w3, res') \<Rightarrow> (w3, case res' of Return _ \<Rightarrow> res | _ \<Rightarrow> res')))" for f
    by (simp add: runChild_def obind_alt st(1))
  have cnt: "(case f childT ?w1 of (w2, res) \<Rightarrow>
            (case runChild E p f childT w of (w3, res3) \<Rightarrow>
               length (statusTags (spans w3 ?s))
                 = length (statusTags (spans w2 ?s))
                   + (if test_span (heap w2 ?c) = Some ?s then 1 else 0)
               \<and> length (sp_finishes (spans w3 ?s))
                 = length (sp_finishes (spans w2 ?s))
                   + (if test_span (heap w2 ?c) = Some ?s then 1 else 0)))" for f
    by (simp add: run case_prod_beta end_adds)
  have once: "(case runChild E p f childT w of (w3, res3) \<Rightarrow>
                   res3 = snd (f childT ?w1) \<and> testMap w3 childT = None
                   \<and> length (statusTags (spans w3 ?s)) = 1
                   \<and> length (sp_finishes (spans w3 ?s)) = 1)"
    if h: "heap (fst (f childT ?w1)) ?c = heap ?w1 ?c" "spans (fst (f childT ?w1)) ?s = spans ?w1 ?s"
    for f
  proof -
    let ?w2 = "fst (f childT ?w1)"
    have sp2: "test_span (heap ?w2 ?c) = Some ?s" by (simp add: h sp1)
    have t2: "test_t (heap ?w2 ?c) = childT" by (simp add: h tt)
    have "snd (runChild E p f childT w) = snd (f childT ?w1)"
      by (cases "snd (f childT ?w1)") (simp_all add: run case_prod_beta end_outcome [OF sp2])
    moreover have "testMap (fst (runChild E p f childT w)) childT = None"
      by (simp add: run case_prod_beta end_testMap [OF sp2] t2)
    moreover have "length (statusTags (spans (fst (runChild E p f childT w)) ?s)) = 1"
      "length (sp_finishes (spans (fst (runChild E p f childT w)) ?s)) = 1"
      using cnt [of f] by (simp_all add: case_prod_beta sp1 h st(5,6))
    ultimately show ?thesis by (simp add: case_prod_beta)
  qed
  let ?w2 = "mutexOp (RUnlock autoInstrumentedTestsMutex)
        (mutexOp (RLock autoInstrumentedTestsMutex)
           (mutexOp (RUnlock testMapMutex) (mutexOp (RLock testMapMutex) ?w1)))"
  have hook: "endHook E childT ?w1 = (?w2, Return ())"
    by (rule endHook_marked [OF map1]) (simp add: tt auto1)
  have hk: "heap (fst (endHook E childT ?w1)) ?c = heap ?w1 ?c"
    "spans (fst (endHook E childT ?w1)) ?s = spans ?w1 ?s"
    by (simp_all add: hook mutexOp_frame)
  have A: "\<forall>tRun test name f w0. test_span (heap w0 test) \<noteq> None \<longrightarrow>
            Run E tRun p test name f w0
              = tRun (test_t (heap w0 test)) name (runChild E p f) w0"
    by (intro allI impI) (rule Run_instrumented)
  have B: "\<forall>f. runChild E p f childT w =
            (case f childT ?w1 of (w2, res) \<Rightarrow>
               (case end' E (Some ?c) (Deferred (case res of Panic v \<Rightarrow> Some v | _ \<Rightarrow> None)) w2
                of (w3, res') \<Rightarrow> (w3, case res' of Return _ \<Rightarrow> res | _ \<Rightarrow> res')))"
    by (intro allI) (rule run)
  have C: "\<forall>w'. autoInstrumentedTests w' (test_t (heap w' ?c)) \<noteq> None \<longrightarrow>
            End E ?c w' = (mutexOp (RUnlock autoInstrumentedTestsMutex)
                            (mutexOp (RLock autoInstrumentedTestsMutex) w'), Return ())"
    by (intro allI impI) (rule End_marked)
  have D: "\<forall>f. case f childT ?w1 of (w2, res) \<Rightarrow>
            (case runChild E p f childT w of (w3, res3) \<Rightarrow>
               length (statusTags (spans w3 ?s))
                 = length (statusTags (spans w2 ?s))
                   + (if test_span (heap w2 ?c) = Some ?s then 1 else 0)
               \<and> length (sp_finishes (spans w3 ?s))
                 = length (sp_finishes (spans w2 ?s))
                   + (if test_span (heap w2 ?c) = Some ?s then 1 else 0))"
    by (intro allI) (rule cnt)
  have F: "\<forall>f. heap (fst (f childT ?w1)) ?c = heap ?w1 ?c
               \<and> spans (fst (f childT ?w1)) ?s = spans ?w1 ?s
            \<longrightarrow> (case runChild E p f childT w of (w3, res3) \<Rightarrow>
                   res3 = snd (f childT ?w1) \<and> testMap w3 childT = None
                   \<and> length (statusTags (spans w3 ?s)) = 1
                   \<and> length (sp_finishes (spans w3 ?s)) = 1)"
    by (intro allI impI, elim conjE) (rule once)
  show ?thesis
    unfolding Let_def
    apply (intro conjI)
                apply (rule A)
               apply (rule st(1))
              apply (rule auto1)
             apply (rule map1)
            apply (rule tt)
           apply (rule sp1)
          apply (rule st(6))
         apply (rule st(5))
        apply (rule B)
       apply (rule C)
      apply (rule D)
     apply (rule F)
    apply (rule hk(1))
    apply (rule hk(2))
    done
qed

text \<open>
  A sub-test with handle 5, run in the state in which test 0 is started: once with the
  generic end-of-test hook as body, once with a body that panics.
\<close>

theorem C5_run_child_finalized_once_witness:
  "GetCachedTestsMap E0 (fqnOf E0 0) = None \<and> testMap W1 5 = None
   \<and> snd (runChild E0 0 (endHook E0) 5 W1) = Return ()
   \<and> testMap (fst (runChild E0 0 (endHook E0) 5 W1)) 5 = None
   \<and> length (statusTags (spans (fst (runChild E0 0 (endHook E0) 5 W1)) (Suc 0))) = 1
   \<and> length (sp_finishes (spans (fst (runChild E0 0 (endHook E0) 5 W1)) (Suc 0))) = 1
   \<and> snd (runChild E0 0 (\<lambda>t w. (w, Panic ''boom'')) 5 W1) = Panic ''boom''
   \<and> length (statusTags (spans (fst (runChild E0 0 (\<lambda>t w. (w, Panic ''boom'')) 5 W1)) (Suc 0))) = 1
   \<and> length (sp_finishes (spans (fst (runChild E0 0 (\<lambda>t w. (w, Panic ''boom'')) 5 W1)) (Suc 0))) = 1"
proof -
  note T = C5_run_child_finalized_once [OF E0_miss W1_fresh5, unfolded Let_def]
  note F = T [THEN conjunct2, THEN conjunct2, THEN conjunct2, THEN conjunct2, THEN conjunct2,
              THEN conjunct2, THEN conjunct2, THEN conjunct2, THEN conjunct2, THEN conjunct2,
              THEN conjunct2, THEN conjunct1, rule_format]
  note hk = T [THEN conjunct2, THEN conjunct2, THEN conjunct2, THEN conjunct2, THEN conjunct2,
              THEN conjunct2, THEN conjunct2, THEN conjunct2, THEN conjunct2, THEN conjunct2,
              THEN conjunct2, THEN conjunct2]
  have r: "snd (endHook E0 5 Wsub) = Return ()"
    by (subst endHook_marked [OF Wsub_facts(1)]) (simp_all add: Wsub_facts)
  have a: "snd (runChild E0 0 (endHook E0) 5 W1) = Return ()
     \<and> testMap (fst (runChild E0 0 (endHook E0) 5 W1)) 5 = None
     \<and> length (statusTags (spans (fst (runChild E0 0 (endHook E0) 5 W1)) (Suc 0))) = 1
     \<and> length (sp_finishes (spans (fst (runChild E0 0 (endHook E0) 5 W1)) (Suc 0))) = 1"
    using F [of "endHook E0", OF hk] r
    by (simp add: case_prod_beta W1_facts Wsub_def [symmetric])
  have b: "snd (runChild E0 0 (\<lambda>t w. (w, Panic ''boom'')) 5 W1) = Panic ''boom''
     \<and> length (statusTags (spans (fst (runChild E0 0 (\<lambda>t w. (w, Panic ''boom'')) 5 W1)) (Suc 0))) = 1
     \<and> length (sp_finishes (spans (fst (runChild E0 0 (\<lambda>t w. (w, Panic ''boom'')) 5 W1)) (Suc 0))) = 1"
    using F [of "\<lambda>t w. (w, Panic ''boom'')"]
    by (simp add: case_prod_beta W1_facts)
  from a b show ?thesis by (simp add: E0_miss W1_fresh5)
qed


text \<open>
  The claim as written says the child's span is never status-tagged or finished twice. A
  body that runs \<^verbatim>\<open>PanicAllRunningTests\<close> has the child finalised by the sweep, and the
  deferred \<^verbatim>\<open>end\<close> of the wrapper finalises it again: the span has two status tags and
  two finishes.
\<close>

theorem C5_run_child_finalized_once_counterexample:
  "GetCachedTestsMap E0 (fqnOf E0 0) = None \<and> testMap W1 5 = None
   \<and> test_span (heap W1 0) = Some 0
   \<and> snd (runChild E0 0 (\<lambda>t. PanicAllRunningTests E0 [5, 0] ''crash'' 0) 5 W1) = Return ()
   \<and> length (statusTags (spans (fst (runChild E0 0
         (\<lambda>t. PanicAllRunningTests E0 [5, 0] ''crash'' 0) 5 W1)) (Suc 0))) = 2
   \<and> length (sp_finishes (spans (fst (runChild E0 0
         (\<lambda>t. PanicAllRunningTests E0 [5, 0] ''crash'' 0) 5 W1)) (Suc 0))) = 2"
proof -
  let ?w2 = "fst (PanicAllRunningTests E0 [5, 0] ''crash'' 0 Wsub)"
  have m: "testMap (addAutoInstrumentedTest 5 W1) 5 = None"
    by (simp add: addAutoInstrumentedTest_frame W1_fresh5)
  have st: "snd (StartTestFromCaller E0 5 0 [] (addAutoInstrumentedTest 5 W1)) = Return (Suc 0)"
    using StartTestFromCaller_fresh(1) [OF E0_miss m, where opts = "[]"]
    by (simp add: addAutoInstrumentedTest_frame W1_facts)
  have e: "snd (end' E0 (Some (Suc 0)) (Deferred None) ?w2) = Return ()"
    by (simp add: end_outcome [OF sweep_Wsub(2)])
  have run: "fst (runChild E0 0 (\<lambda>t. PanicAllRunningTests E0 [5, 0] ''crash'' 0) 5 W1)
      = fst (end' E0 (Some (Suc 0)) (Deferred None) ?w2)"
    "snd (runChild E0 0 (\<lambda>t. PanicAllRunningTests E0 [5, 0] ''crash'' 0) 5 W1) = Return ()"
    by (simp_all add: runChild_def obind_alt st case_prod_beta Let_def sweep_Wsub(1)
          Wsub_def [symmetric] e)
  show ?thesis
    unfolding run
    by (simp add: E0_miss W1_fresh5 W1_facts end_adds sweep_Wsub)
qed

section \<open>The order of the two locks\<close>

lemma neverAcquires_append:
  "neverAcquires b a held xs \<Longrightarrow>
   neverAcquires b a held (xs @ ys) = neverAcquires b a [] ys"
proof (induction xs arbitrary: held)
  case Nil
  then show ?case by simp
next
  case (Cons ev xs)
  then show ?case by (cases ev) auto
qed

lemma neverAcquires_two:
  "neverAcquires b a [] xs \<Longrightarrow> neverAcquires b a [] ys \<Longrightarrow> neverAcquires b a [] (xs @ ys)"
  by (simp add: neverAcquires_append)

lemma neverAcquires_loop:
  "neverAcquires autoInstrumentedTestsMutex testMapMutex [autoInstrumentedTestsMutex]
     (concat (replicate k [Lock testMapMutex, Unlock testMapMutex]) @ evs)
   = neverAcquires autoInstrumentedTestsMutex testMapMutex [autoInstrumentedTestsMutex] evs"
  by (induction k) simp_all

lemma end_lockLog_cases:
  "lockLog (fst (end' E test fr w)) = lockLog w
   \<or> lockLog (fst (end' E test fr w)) = lockLog w @ [Lock testMapMutex, Unlock testMapMutex]"
proof (cases test)
  case None
  then show ?thesis by (simp add: end'_def)
next
  case (Some r)
  show ?thesis
  proof (cases "test_span (heap w r)")
    case None
    then show ?thesis by (simp add: Some end_nil_span)
  next
    case (Some s)
    then show ?thesis by (simp add: \<open>test = Some r\<close> end_lockLog)
  qed
qed

lemma StartTestFromCaller_lockLog_cases:
  "lockLog (fst (StartTestFromCaller E t p opts w)) = lockLog w
   \<or> lockLog (fst (StartTestFromCaller E t p opts w))
       = lockLog w @ [Lock testMapMutex, Unlock testMapMutex]"
proof (cases "GetCachedTestsMap E (fqnOf E p)")
  case None
  show ?thesis
  proof (cases "testMap w t")
    case None
    then show ?thesis
      using \<open>GetCachedTestsMap E (fqnOf E p) = None\<close>
      by (simp add: StartTestFromCaller_miss startTracked_fresh Let_def Printf_frame)
  next
    case (Some r)
    then show ?thesis
      using \<open>GetCachedTestsMap E (fqnOf E p) = None\<close>
      by (simp add: StartTestFromCaller_miss startTracked_existing Let_def Printf_frame)
  qed
next
  case (Some b)
  then show ?thesis
    by (cases "test_ctx (cachedTest t opts)")
       (simp_all add: StartTestFromCaller_hit startCached_unfold Let_def
          SkipAndFinishTest_def Print_def Printf_def updHost_def)
qed

lemma panicLoop_lockLog:
  "\<exists>k. lockLog (fst (panicLoop E e skip vs w))
        = lockLog w @ concat (replicate k [Lock testMapMutex, Unlock testMapMutex])"
proof (induction vs arbitrary: w)
  case Nil
  show ?case by (rule exI [of _ 0]) simp
next
  case (Cons v vs)
  let ?w1 = "w\<lparr>autoInstrumentedTests := (autoInstrumentedTests w)(test_t (heap w v) := None)\<rparr>"
  show ?case
  proof (cases "completed (hosts w) (test_t (heap w v))")
    case True
    show ?thesis
      by (rule exI [of _ 0])
         (simp add: panicLoop_Cons_completed [OF True, THEN conjunct1] Fail_frame
            del: panicLoop.simps)
  next
    case False
    show ?thesis
    proof (cases "test_span (heap w v)")
      case None
      obtain w2 where w2: "Fail (test_t (heap w v)) ?w1 = (w2, Return ())"
        using Fail_returns(1) [of ?w1 "test_t (heap w v)"] False
        by (cases "Fail (test_t (heap w v)) ?w1") simp
      have h2: "heap w2 = heap w" "lockLog w2 = lockLog w"
        using Fail_frame(1,11) [of "test_t (heap w v)" ?w1] by (simp_all add: w2)
      show ?thesis
        by (rule exI [of _ 0])
           (simp add: None Let_def WriteExceptionEvent_def obind_def w2 h2)
    next
      case (Some s)
      from Cons.IH [of "sweepOne E e skip v w"] obtain k where
        k: "lockLog (fst (panicLoop E e skip vs (sweepOne E e skip v w)))
              = lockLog (sweepOne E e skip v w)
                  @ concat (replicate k [Lock testMapMutex, Unlock testMapMutex])"
        by blast
      show ?thesis
        by (rule exI [of _ "Suc k"])
           (simp add: panicLoop_Cons_span [OF Some False] k sweepOne_frame(5) [OF Some]
              del: panicLoop.simps)
    qed
  qed
qed


lemma SetTestCode_lockLog: "lockLog (SetTestCode E r p w) = lockLog w"
  by (simp add: SetTestCode_def Let_def case_prod_beta SetTag_def updSpan_def updTest_def
        split: option.splits)

lemma GetTest_lockLog:
  "lockLog (fst (GetTest t w)) = lockLog w @ [RLock testMapMutex, RUnlock testMapMutex]"
  by (simp add: GetTest_def Let_def mutexOp_def split: option.splits)

lemma End_lockLog_cases:
  "lockLog (fst (End E r w))
     = lockLog w @ [RLock autoInstrumentedTestsMutex, RUnlock autoInstrumentedTestsMutex]
   \<or> lockLog (fst (End E r w))
     = lockLog w @ [RLock autoInstrumentedTestsMutex, Lock testMapMutex, Unlock testMapMutex,
                    RUnlock autoInstrumentedTestsMutex]"
proof -
  let ?w1 = "mutexOp (RLock autoInstrumentedTestsMutex) w"
  show ?thesis
  proof (cases "autoInstrumentedTests ?w1 (test_t (heap ?w1 r))")
    case None
    then have "fst (End E r w)
        = mutexOp (RUnlock autoInstrumentedTestsMutex) (fst (end' E (Some r) Direct ?w1))"
      by (simp add: End_def Let_def case_prod_beta)
    then show ?thesis
      using end_lockLog_cases [of E "Some r" Direct ?w1]
      by (auto simp: mutexOp_frame)
  next
    case (Some b)
    then show ?thesis
      by (simp add: End_def Let_def mutexOp_frame)
  qed
qed

lemma PanicAllRunningTests_lockLog:
  "\<exists>k. lockLog (fst (PanicAllRunningTests E keys e skip w))
        = lockLog w @ [Lock autoInstrumentedTestsMutex, RLock testMapMutex, RUnlock testMapMutex]
            @ concat (replicate k [Lock testMapMutex, Unlock testMapMutex])
            @ [Unlock autoInstrumentedTestsMutex]"
proof -
  let ?w3 = "mutexOp (RUnlock testMapMutex) (mutexOp (RLock testMapMutex)
               (mutexOp (Lock autoInstrumentedTestsMutex) w))"
  let ?vs = "List.map_filter (testMap w) keys"
  obtain k where k: "lockLog (fst (panicLoop E e skip ?vs ?w3))
        = lockLog ?w3 @ concat (replicate k [Lock testMapMutex, Unlock testMapMutex])"
    using panicLoop_lockLog by blast
  have "fst (PanicAllRunningTests E keys e skip w)
          = mutexOp (Unlock autoInstrumentedTestsMutex) (fst (panicLoop E e skip ?vs ?w3))"
    by (simp add: PanicAllRunningTests_def Let_def case_prod_beta mutexOp_frame)
  then show ?thesis
    by (intro exI [of _ k]) (simp add: mutexOp_frame k)
qed

lemma runChild_lockLog:
  assumes "\<forall>w1. \<exists>evs. lockLog (fst (f childT w1)) = lockLog w1 @ evs
                       \<and> neverAcquires autoInstrumentedTestsMutex testMapMutex [] evs"
  shows "\<exists>evs. lockLog (fst (runChild E p f childT w)) = lockLog w @ evs
               \<and> neverAcquires autoInstrumentedTestsMutex testMapMutex [] evs"
proof -
  let ?A = autoInstrumentedTestsMutex and ?M = testMapMutex
  let ?w0 = "addAutoInstrumentedTest childT w"
  let ?st = "StartTestFromCaller E childT p [] ?w0"
  have l0: "lockLog ?w0 = lockLog w @ [Lock ?A, Unlock ?A]"
    by (simp add: addAutoInstrumentedTest_frame)
  obtain xs where xs: "lockLog (fst ?st) = lockLog w @ [Lock ?A, Unlock ?A] @ xs"
    and xs_ok: "neverAcquires ?A ?M [] xs"
    using StartTestFromCaller_lockLog_cases [of E childT p "[]" ?w0]
    by (auto simp: l0)
  show ?thesis
  proof (cases "snd ?st")
    case (Return c)
    let ?w1 = "fst ?st"
    obtain ys where ys: "lockLog (fst (f childT ?w1)) = lockLog ?w1 @ ys"
      and ys_ok: "neverAcquires ?A ?M [] ys"
      using assms by blast
    let ?w2 = "fst (f childT ?w1)"
    let ?fr = "Deferred (case snd (f childT ?w1) of Panic v \<Rightarrow> Some v | _ \<Rightarrow> None)"
    obtain zs where zs: "lockLog (fst (end' E (Some c) ?fr ?w2)) = lockLog ?w2 @ zs"
      and zs_ok: "neverAcquires ?A ?M [] zs"
      using end_lockLog_cases [of E "Some c" ?fr ?w2] by auto
    have "fst (runChild E p f childT w) = fst (end' E (Some c) ?fr ?w2)"
      by (simp add: runChild_def obind_alt Return case_prod_beta)
    then have "lockLog (fst (runChild E p f childT w))
                 = lockLog w @ ([Lock ?A, Unlock ?A] @ xs @ ys @ zs)"
      by (simp add: zs ys xs)
    moreover have "neverAcquires ?A ?M [] ([Lock ?A, Unlock ?A] @ xs @ ys @ zs)"
      by (intro neverAcquires_two xs_ok ys_ok zs_ok) simp
    ultimately show ?thesis by blast
  next
    case (Panic v)
    then have "fst (runChild E p f childT w) = fst ?st"
      by (simp add: runChild_def obind_alt)
    then have "lockLog (fst (runChild E p f childT w)) = lockLog w @ ([Lock ?A, Unlock ?A] @ xs)"
      by (simp add: xs)
    moreover have "neverAcquires ?A ?M [] ([Lock ?A, Unlock ?A] @ xs)"
      by (intro neverAcquires_two xs_ok) simp
    ultimately show ?thesis by blast
  next
    case Goexit
    then have "fst (runChild E p f childT w) = fst ?st"
      by (simp add: runChild_def obind_alt)
    then have "lockLog (fst (runChild E p f childT w)) = lockLog w @ ([Lock ?A, Unlock ?A] @ xs)"
      by (simp add: xs)
    moreover have "neverAcquires ?A ?M [] ([Lock ?A, Unlock ?A] @ xs)"
      by (intro neverAcquires_two xs_ok) simp
    ultimately show ?thesis by blast
  qed
qed

text \<open>
  C8, as amended. The order the code keeps is the reverse of the one the claim names: no
  operation acquires the lock of the auto-instrumented map while it holds the lock of the
  live set, and every operation has released, when it ends (also by a panic), all it
  acquired. This holds for \<^verbatim>\<open>StartTestFromCaller\<close>, \<^verbatim>\<open>SetTestCode\<close>, \<^verbatim>\<open>GetTest\<close>,
  \<^verbatim>\<open>end\<close>, \<^verbatim>\<open>End\<close> and \<^verbatim>\<open>PanicAllRunningTests\<close> in every state, and for the wrapper of
  \<^verbatim>\<open>Run\<close> when the body it wraps keeps the order too. (\<^verbatim>\<open>End\<close> and
  \<^verbatim>\<open>PanicAllRunningTests\<close> do acquire the lock of the live set while they hold the other
  one.)
\<close>

theorem C8_lock_order:
  "neverAcquires autoInstrumentedTestsMutex testMapMutex []
     (newLocks w (fst (StartTestFromCaller E t p opts w)))
   \<and> neverAcquires autoInstrumentedTestsMutex testMapMutex []
       (newLocks w (SetTestCode E r p w))
   \<and> neverAcquires autoInstrumentedTestsMutex testMapMutex []
       (newLocks w (fst (GetTest t w)))
   \<and> neverAcquires autoInstrumentedTestsMutex testMapMutex []
       (newLocks w (fst (end' E test fr w)))
   \<and> neverAcquires autoInstrumentedTestsMutex testMapMutex []
       (newLocks w (fst (End E r w)))
   \<and> neverAcquires autoInstrumentedTestsMutex testMapMutex []
       (newLocks w (fst (PanicAllRunningTests E keys e skip w)))
   \<and> ((\<forall>w1. \<exists>evs. lockLog (fst (f childT w1)) = lockLog w1 @ evs
                    \<and> neverAcquires autoInstrumentedTestsMutex testMapMutex [] evs)
        \<longrightarrow> neverAcquires autoInstrumentedTestsMutex testMapMutex []
              (newLocks w (fst (runChild E p f childT w))))"
proof -
  let ?A = autoInstrumentedTestsMutex and ?M = testMapMutex
  have c1: "neverAcquires ?A ?M [] (newLocks w (fst (StartTestFromCaller E t p opts w)))"
    using StartTestFromCaller_lockLog_cases [of E t p opts w]
    by (auto simp: newLocks_def)
  have c2: "neverAcquires ?A ?M [] (newLocks w (SetTestCode E r p w))"
    by (simp add: newLocks_def SetTestCode_lockLog)
  have c3: "neverAcquires ?A ?M [] (newLocks w (fst (GetTest t w)))"
    by (simp add: newLocks_def GetTest_lockLog)
  have c4: "neverAcquires ?A ?M [] (newLocks w (fst (end' E test fr w)))"
    using end_lockLog_cases [of E test fr w] by (auto simp: newLocks_def)
  have c5: "neverAcquires ?A ?M [] (newLocks w (fst (End E r w)))"
    using End_lockLog_cases [of E r w] by (auto simp: newLocks_def)
  have c6: "neverAcquires ?A ?M [] (newLocks w (fst (PanicAllRunningTests E keys e skip w)))"
  proof -
    obtain k where "lockLog (fst (PanicAllRunningTests E keys e skip w))
        = lockLog w @ [Lock ?A, RLock ?M, RUnlock ?M]
            @ concat (replicate k [Lock ?M, Unlock ?M]) @ [Unlock ?A]"
      using PanicAllRunningTests_lockLog by blast
    then show ?thesis
      by (simp add: newLocks_def neverAcquires_loop)
  qed
  have c7: "(\<forall>w1. \<exists>evs. lockLog (fst (f childT w1)) = lockLog w1 @ evs
                    \<and> neverAcquires ?A ?M [] evs)
        \<longrightarrow> neverAcquires ?A ?M [] (newLocks w (fst (runChild E p f childT w)))"
  proof
    assume a: "\<forall>w1. \<exists>evs. lockLog (fst (f childT w1)) = lockLog w1 @ evs
                    \<and> neverAcquires ?A ?M [] evs"
    from runChild_lockLog [where f = f and childT = childT and E = E and p = p and w = w, OF a]
    show "neverAcquires ?A ?M [] (newLocks w (fst (runChild E p f childT w)))"
      by (auto simp: newLocks_def)
  qed
  from c1 c2 c3 c4 c5 c6 c7 show ?thesis by blast
qed

text \<open>
  The claim as written: the lock of the live set is never acquired while the lock of the
  auto-instrumented map is held. \<^verbatim>\<open>End\<close> on test 0 of the example does so.
\<close>

theorem C8_lock_order_counterexample:
  "\<not> neverAcquires testMapMutex autoInstrumentedTestsMutex [] (newLocks W1 (fst (End E0 0 W1)))"
proof -
  have sp: "test_span (heap (mutexOp (RLock autoInstrumentedTestsMutex) W1) 0) = Some 0"
    by (simp add: mutexOp_frame W1_facts)
  have "lockLog (fst (End E0 0 W1))
          = lockLog W1 @ [RLock autoInstrumentedTestsMutex, Lock testMapMutex,
                          Unlock testMapMutex, RUnlock autoInstrumentedTestsMutex]"
    by (simp add: End_def Let_def case_prod_beta mutexOp_frame W1_facts end_lockLog [OF sp])
  then show ?thesis
    by (simp add: newLocks_def)
qed


text \<open>
  \<^verbatim>\<open>End\<close> of test 0, the sweep over both tests, and the wrapper of \<^verbatim>\<open>Run\<close> around a body
  that takes no lock.
\<close>

theorem C8_lock_order_witness:
  "(\<forall>w1. \<exists>evs. lockLog (fst ((\<lambda>t w. (w, Return ())) (5::nat) w1)) = lockLog w1 @ evs
                 \<and> neverAcquires autoInstrumentedTestsMutex testMapMutex [] evs)
   \<and> neverAcquires autoInstrumentedTestsMutex testMapMutex []
       (newLocks W1 (fst (runChild E0 0 (\<lambda>t w. (w, Return ())) 5 W1)))
   \<and> neverAcquires autoInstrumentedTestsMutex testMapMutex []
       (newLocks W1 (fst (End E0 0 W1)))
   \<and> neverAcquires autoInstrumentedTestsMutex testMapMutex []
       (newLocks W2 (fst (PanicAllRunningTests E0 [Suc 0, 0] ''crash'' 0 W2)))"
proof -
  have h: "\<forall>w1. \<exists>evs. lockLog (fst ((\<lambda>t w. (w, Return ())) (5::nat) w1)) = lockLog w1 @ evs
                 \<and> neverAcquires autoInstrumentedTestsMutex testMapMutex [] evs"
    by simp
  note a = C8_lock_order [where w = W1 and E = E0 and r = 0 and p = 0
      and f = "\<lambda>t w. (w, Return ())" and childT = 5]
  note b = C8_lock_order [where w = W2 and E = E0 and keys = "[Suc 0, 0]"
      and e = "''crash''" and skip = 0]
  from a h have "neverAcquires autoInstrumentedTestsMutex testMapMutex []
       (newLocks W1 (fst (runChild E0 0 (\<lambda>t w. (w, Return ())) 5 W1)))
     \<and> neverAcquires autoInstrumentedTestsMutex testMapMutex []
       (newLocks W1 (fst (End E0 0 W1)))"
    by blast
  moreover from b have "neverAcquires autoInstrumentedTestsMutex testMapMutex []
       (newLocks W2 (fst (PanicAllRunningTests E0 [Suc 0, 0] ''crash'' 0 W2)))"
    by blast
  ultimately show ?thesis using h by blast
qed

end
